theory Spec2Isabelle
  imports Main "HOL-Library.Char_ord" "HOL-Library.List_Lexorder" "HOL-Library.Product_Lexorder"
    "HOL-Library.Multiset" "HOL-Library.Sublist"
begin

section \<open>Python values, errors and song dictionaries\<close>

text \<open>
  The script \<^verbatim>\<open>gmsync.py\<close> passes songs around as Python dictionaries with string keys.
  The values the reconciliation code reads are strings, integers and \<^verbatim>\<open>None\<close>; all three
  are hashable, so each can also be the key of a lookup dictionary.
\<close>

datatype pyval = PNone | PInt int | PStr string

text \<open>
  The exceptions the modelled code can raise. \<open>SystemExit\<close> carries the argument of
  \<^verbatim>\<open>sys.exit\<close> (\<open>None\<close> when it is called without one); \<open>KeyError\<close> carries the
  missing key, \<open>NameError\<close> the unbound name.
\<close>

datatype error =
    KeyError pyval
  | IndexError
  | OverflowError
  | TypeError
  | ValueError
  | NameError string
  | SystemExit "int option"

type_synonym 'a result = "error + 'a"

text \<open>Sequencing of fallible steps: the first exception ends the computation.\<close>

definition bind :: "'a result \<Rightarrow> ('a \<Rightarrow> 'b result) \<Rightarrow> 'b result" where
  "bind r f = (case r of Inl e \<Rightarrow> Inl e | Inr v \<Rightarrow> f v)"

type_synonym song = "string \<rightharpoonup> pyval"

text \<open>\<^verbatim>\<open>d[k]\<close> on a dictionary with string keys: \<^verbatim>\<open>KeyError\<close> when the key is absent.\<close>

definition getitem :: "song \<Rightarrow> string \<Rightarrow> pyval result" where
  "getitem d k = (case d k of None \<Rightarrow> Inl (KeyError (PStr k)) | Some v \<Rightarrow> Inr v)"

text \<open>\<^verbatim>\<open>d.get(k)\<close>: \<^verbatim>\<open>None\<close> when the key is absent.\<close>

definition dict_get :: "song \<Rightarrow> string \<Rightarrow> pyval" where
  "dict_get d k = (case d k of None \<Rightarrow> PNone | Some v \<Rightarrow> v)"

text \<open>\<^verbatim>\<open>functools.reduce(function, iterable, initializer)\<close> with a fallible step function.\<close>

fun reduce :: "('b \<Rightarrow> 'a \<Rightarrow> 'b result) \<Rightarrow> 'a list \<Rightarrow> 'b \<Rightarrow> 'b result" where
  "reduce f [] acc = Inr acc"
| "reduce f (x # xs) acc = (case f acc x of Inl e \<Rightarrow> Inl e | Inr acc' \<Rightarrow> reduce f xs acc')"

section \<open>Identity keys and the playlist lookups\<close>

text \<open>
  \<^verbatim>\<open>
  def songid (track):
      return track['trackId'] if 'trackId' in track else track['id']
  \<close>
\<close>

definition songid :: "song \<Rightarrow> pyval result" where
  "songid track = (if ''trackId'' \<in> dom track then getitem track ''trackId'' else getitem track ''id'')"

text \<open>
  The identity key as the specification words it: the \<^verbatim>\<open>trackId\<close> of the record when it has
  one, else its \<^verbatim>\<open>id\<close>; none when it has neither.
\<close>

definition identity_key :: "song \<Rightarrow> pyval option" where
  "identity_key track = (case track ''trackId'' of Some v \<Rightarrow> Some v | None \<Rightarrow> track ''id'')"

text \<open>
  \<^verbatim>\<open>
  def songs_to_dict (songs, song):
      id = songid(song)
      songs[id] = song
      return songs
  \<close>
\<close>

definition songs_to_dict :: "(pyval \<rightharpoonup> song) \<Rightarrow> song \<Rightarrow> (pyval \<rightharpoonup> song) result" where
  "songs_to_dict songs song = bind (songid song) (\<lambda>ident. Inr (songs(ident \<mapsto> song)))"

text \<open>
  \<^verbatim>\<open>
  def get_mmw_tracks (songs):
      tracks = []
      seen = {}
      for song in songs:
          id = songid(song)
          if id not in seen:
              tracks.append(tracks_dict[id])
              seen[id] = True
      return tracks;
  \<close>
  The loop carries \<open>tracks\<close> and \<open>seen\<close> (the source's local \<open>id\<close> is \<open>ident\<close> here);
  \<open>tracks_dict\<close> is the enclosing scope's lookup of music-manager songs. \<^verbatim>\<open>tracks_dict[id]\<close> raises \<^verbatim>\<open>KeyError\<close> on a key that is
  not in the lookup, and nothing catches it.
\<close>

fun get_mmw_tracks_loop ::
  "(pyval \<rightharpoonup> song) \<Rightarrow> song list \<Rightarrow> song list \<Rightarrow> (pyval \<rightharpoonup> bool) \<Rightarrow> song list result" where
  "get_mmw_tracks_loop tracks_dict [] tracks seen = Inr tracks"
| "get_mmw_tracks_loop tracks_dict (song # songs) tracks seen =
     (case songid song of
        Inl e \<Rightarrow> Inl e
      | Inr ident \<Rightarrow>
          if ident \<notin> dom seen then
            (case tracks_dict ident of
               None \<Rightarrow> Inl (KeyError ident)
             | Some t \<Rightarrow> get_mmw_tracks_loop tracks_dict songs (tracks @ [t]) (seen(ident \<mapsto> True)))
          else get_mmw_tracks_loop tracks_dict songs tracks seen)"

definition get_mmw_tracks :: "(pyval \<rightharpoonup> song) \<Rightarrow> song list \<Rightarrow> song list result" where
  "get_mmw_tracks tracks_dict songs = get_mmw_tracks_loop tracks_dict songs [] Map.empty"

text \<open>
  The lookup of the music-manager songs:
  \<^verbatim>\<open>tracks_dict = reduce(songs_to_dict, matched_google_songs + filtered_google_songs, {})\<close>.
\<close>

definition tracks_dict_of :: "song list \<Rightarrow> song list \<Rightarrow> (pyval \<rightharpoonup> song) result" where
  "tracks_dict_of matched_google_songs filtered_google_songs =
     reduce songs_to_dict (matched_google_songs @ filtered_google_songs) Map.empty"

text \<open>First-occurrence de-duplication of a list, the reference for the loop above.\<close>

fun dedup_first :: "'a list \<Rightarrow> 'a list" where
  "dedup_first [] = []"
| "dedup_first (x # xs) = x # dedup_first (removeAll x xs)"

section \<open>Integers from strings, sorting with a key\<close>

text \<open>
  \<^verbatim>\<open>int(x)\<close> on the values of a song dictionary. A string is stripped of surrounding
  whitespace (space, tab, line feed, vertical tab, form feed, carriage return), may carry
  one sign, and then is a non-empty run of decimal digits in which
  single underscores may separate digits; anything else is \<^verbatim>\<open>ValueError\<close>. \<^verbatim>\<open>int(None)\<close>
  is \<^verbatim>\<open>TypeError\<close>. Strings are taken to be ASCII.
\<close>

definition is_space :: "char \<Rightarrow> bool" where
  "is_space c = (c \<in> set [CHR '' '', CHR 0x09, CHR 0x0A, CHR 0x0B, CHR 0x0C, CHR 0x0D])"

definition strip :: "string \<Rightarrow> string" where
  "strip s = rev (dropWhile is_space (rev (dropWhile is_space s)))"

definition digit_val :: "char \<Rightarrow> int option" where
  "digit_val = map_of [(CHR ''0'', 0), (CHR ''1'', 1), (CHR ''2'', 2), (CHR ''3'', 3), (CHR ''4'', 4),
                       (CHR ''5'', 5), (CHR ''6'', 6), (CHR ''7'', 7), (CHR ''8'', 8), (CHR ''9'', 9)]"

fun parse_digits :: "int \<Rightarrow> bool \<Rightarrow> string \<Rightarrow> int option" where
  "parse_digits acc after_digit [] = (if after_digit then Some acc else None)"
| "parse_digits acc after_digit (c # cs) =
     (case digit_val c of
        Some d \<Rightarrow> parse_digits (10 * acc + d) True cs
      | None \<Rightarrow> if c = CHR ''_'' \<and> after_digit then parse_digits acc False cs else None)"

definition int_of_str :: "string \<Rightarrow> int result" where
  "int_of_str s =
     (let t = strip s;
          neg = (t \<noteq> [] \<and> hd t = CHR ''-'');
          body = (if t \<noteq> [] \<and> (hd t = CHR ''-'' \<or> hd t = CHR ''+'') then tl t else t)
      in case parse_digits 0 False body of
           None \<Rightarrow> Inl ValueError
         | Some n \<Rightarrow> Inr (if neg then - n else n))"

definition py_int :: "pyval \<Rightarrow> int result" where
  "py_int v = (case v of PInt n \<Rightarrow> Inr n | PStr s \<Rightarrow> int_of_str s | PNone \<Rightarrow> Inl TypeError)"

text \<open>
  \<^verbatim>\<open>xs.sort(key=f)\<close>: the keys are computed first, one per element in list order (the first
  exception leaves the sort), then the list is sorted by key, stably. The keys here are
  of a linearly ordered type, so comparing them does not raise.
\<close>

fun map_result :: "('a \<Rightarrow> 'b result) \<Rightarrow> 'a list \<Rightarrow> 'b list result" where
  "map_result f [] = Inr []"
| "map_result f (x # xs) = bind (f x) (\<lambda>y. bind (map_result f xs) (\<lambda>ys. Inr (y # ys)))"

definition list_sort_key :: "('a \<Rightarrow> 'k::linorder result) \<Rightarrow> 'a list \<Rightarrow> 'a list result" where
  "list_sort_key key xs = bind (map_result key xs) (\<lambda>ks. Inr (map snd (sort_key fst (zip ks xs))))"

section \<open>The favorites derivation\<close>

text \<open>
  \<^verbatim>\<open>
  thumbs_up = [t for t in all_songs if int(t['rating']) > 3]
  # most recent first
  thumbs_up.sort(key=lambda song: (int(song.get('lastModifiedTimestamp')) * -1))
  \<close>
  \<open>rating_filter\<close> is the list comprehension, \<open>favorites_key\<close> the sort key.
\<close>

definition rating_of :: "song \<Rightarrow> int result" where
  "rating_of t = bind (getitem t ''rating'') py_int"

fun rating_filter :: "song list \<Rightarrow> song list result" where
  "rating_filter [] = Inr []"
| "rating_filter (t # ts) =
     bind (rating_of t) (\<lambda>n. bind (rating_filter ts) (\<lambda>rest. Inr (if n > 3 then t # rest else rest)))"

definition last_modified_of :: "song \<Rightarrow> int result" where
  "last_modified_of song = py_int (dict_get song ''lastModifiedTimestamp'')"

definition favorites_key :: "song \<Rightarrow> int result" where
  "favorites_key song = bind (last_modified_of song) (\<lambda>n. Inr (n * - 1))"

definition thumbs_up_of :: "song list \<Rightarrow> song list result" where
  "thumbs_up_of all_songs = bind (rating_filter all_songs) (list_sort_key favorites_key)"

text \<open>The selection the specification words as "rating strictly greater than 3".\<close>

definition rated_above_3 :: "song \<Rightarrow> bool" where
  "rated_above_3 t = (case rating_of t of Inr n \<Rightarrow> 3 < n | Inl e \<Rightarrow> False)"

section \<open>The collection comparator and the sorts of its results\<close>

text \<open>
  Modelled from the spec: \<^verbatim>\<open>compare_song_collections\<close> is imported from the library
  \<^verbatim>\<open>gmusicapi_wrapper.utils\<close>, which is not part of this repository. Section 4.3 of the
  specification gives its contract: "returns every song in source_collection whose
  identity key does not appear among target_collection's identity keys", in source
  order. The identity keys of the two collections are parameters.
\<close>

definition compare_song_collections ::
  "('a \<Rightarrow> 'k) \<Rightarrow> ('b \<Rightarrow> 'k) \<Rightarrow> 'a list \<Rightarrow> 'b list \<Rightarrow> 'a list" where
  "compare_song_collections src_key dst_key src_songs dst_songs =
     filter (\<lambda>song. src_key song \<notin> dst_key ` set dst_songs) src_songs"

text \<open>Local songs are file paths (\<^verbatim>\<open>mmw.get_local_songs\<close> returns three lists of paths).\<close>

type_synonym path = string

text \<open>
  Removed-file detection in \<open>main\<close>:
  \<^verbatim>\<open>
  matched_local_songs, filtered_local_songs, excluded_local_songs = mmw.get_local_songs(...)
  all_local_songs = matched_local_songs + filtered_local_songs + excluded_local_songs
  all_google_songs = matched_google_songs + filtered_google_songs
  songs_to_move = compare_song_collections(all_local_songs, all_google_songs)
  \<close>
\<close>

definition songs_to_move ::
  "(path \<Rightarrow> 'k) \<Rightarrow> (song \<Rightarrow> 'k) \<Rightarrow> path list \<times> path list \<times> path list \<Rightarrow>
   song list \<Rightarrow> song list \<Rightarrow> path list" where
  "songs_to_move local_key google_key local_songs matched_google_songs filtered_google_songs =
     (case local_songs of (matched_local_songs, filtered_local_songs, excluded_local_songs) \<Rightarrow>
        let all_local_songs = matched_local_songs @ filtered_local_songs @ excluded_local_songs;
            all_google_songs = matched_google_songs @ filtered_google_songs
        in compare_song_collections local_key google_key all_local_songs all_google_songs)"

text \<open>
  Python's \<^verbatim>\<open><\<close> on the values of a song dictionary orders two integers or two strings
  and raises \<^verbatim>\<open>TypeError\<close> on every other pair. On tuples (lists here) it compares the
  first pair of components that are not equal.
\<close>

fun py_lt :: "pyval \<Rightarrow> pyval \<Rightarrow> bool result" where
  "py_lt (PInt a) (PInt b) = Inr (a < b)"
| "py_lt (PStr a) (PStr b) = Inr (a < b)"
| "py_lt a b = Inl TypeError"

fun tuple_lt :: "pyval list \<Rightarrow> pyval list \<Rightarrow> bool result" where
  "tuple_lt [] [] = Inr False"
| "tuple_lt [] (b # bs) = Inr True"
| "tuple_lt (a # as) [] = Inr False"
| "tuple_lt (a # as) (b # bs) = (if a = b then tuple_lt as bs else py_lt a b)"

text \<open>
  \<open>pyval_code\<close> places the values in a linear order that agrees with \<open>py_lt\<close> wherever
  \<open>py_lt\<close> returns; it gives \<^verbatim>\<open>xs.sort(key=...)\<close> with tuple keys its order. Where two keys
  of the list cannot be compared the sort raises \<^verbatim>\<open>TypeError\<close>.
\<close>

definition pyval_code :: "pyval \<Rightarrow> nat \<times> int \<times> string" where
  "pyval_code v = (case v of PNone \<Rightarrow> (0, 0, []) | PInt n \<Rightarrow> (1, n, []) | PStr s \<Rightarrow> (2, 0, s))"

definition comparable :: "pyval list \<Rightarrow> pyval list \<Rightarrow> bool" where
  "comparable a b = (case tuple_lt a b of Inr r \<Rightarrow> True | Inl e \<Rightarrow> False)"

definition sort_tuple_key :: "('a \<Rightarrow> pyval list) \<Rightarrow> 'a list \<Rightarrow> 'a list result" where
  "sort_tuple_key key xs =
     (if \<forall>x\<in>set xs. \<forall>y\<in>set xs. comparable (key x) (key y)
      then Inr (sort_key (\<lambda>x. map pyval_code (key x)) xs)
      else Inl TypeError)"

text \<open>
  In \<open>download_missing_google_songs\<close>:
  \<^verbatim>\<open>
  songs_to_download = compare_song_collections(mmw_songs, matched_local_songs)
  songs_to_download.sort(key=lambda song: (song.get('artist'), song.get('album'), song.get('track_number')))
  \<close>
\<close>

definition download_key :: "song \<Rightarrow> pyval list" where
  "download_key song = [dict_get song ''artist'', dict_get song ''album'', dict_get song ''track_number'']"

definition songs_to_download_sorted ::
  "(song \<Rightarrow> 'k) \<Rightarrow> (path \<Rightarrow> 'k) \<Rightarrow> song list \<Rightarrow> path list \<Rightarrow> song list result" where
  "songs_to_download_sorted google_key local_key mmw_songs matched_local_songs =
     sort_tuple_key download_key
       (compare_song_collections google_key local_key mmw_songs matched_local_songs)"

text \<open>
  In the upload branch of \<open>main\<close>:
  \<^verbatim>\<open>
  songs_to_upload = compare_song_collections(matched_local_songs, matched_google_songs)
  # Sort lists for sensible output.
  songs_to_upload.sort()
  \<close>
  The elements are paths, so \<^verbatim>\<open>sort()\<close> without a key orders them as strings.
\<close>

definition songs_to_upload_sorted ::
  "(path \<Rightarrow> 'k) \<Rightarrow> (song \<Rightarrow> 'k) \<Rightarrow> path list \<Rightarrow> song list \<Rightarrow> path list" where
  "songs_to_upload_sorted local_key google_key matched_local_songs matched_google_songs =
     sort (compare_song_collections local_key google_key matched_local_songs matched_google_songs)"

section \<open>The base path of a download\<close>

text \<open>
  \<^verbatim>\<open>os.path.commonprefix(m)\<close> of \<^verbatim>\<open>genericpath.py\<close>:
  \<^verbatim>\<open>
  if not m: return ''
  s1 = min(m)
  s2 = max(m)
  for i, c in enumerate(s1):
      if c != s2[i]:
          return s1[:i]
  return s1
  \<close>
  It compares characters, not path components. \<^verbatim>\<open>s2[i]\<close> past the end of \<open>s2\<close> would be
  \<^verbatim>\<open>IndexError\<close>.
\<close>

definition list_min :: "'a::linorder list \<Rightarrow> 'a" where
  "list_min m = fold min (tl m) (hd m)"

definition list_max :: "'a::linorder list \<Rightarrow> 'a" where
  "list_max m = fold max (tl m) (hd m)"

fun commonprefix_scan :: "string \<Rightarrow> string \<Rightarrow> string result" where
  "commonprefix_scan [] s2 = Inr []"
| "commonprefix_scan (c # cs) [] = Inl IndexError"
| "commonprefix_scan (c # cs) (d # ds) =
     (if c \<noteq> d then Inr [] else bind (commonprefix_scan cs ds) (\<lambda>p. Inr (c # p)))"

definition commonprefix :: "string list \<Rightarrow> string result" where
  "commonprefix m = (if m = [] then Inr [] else commonprefix_scan (list_min m) (list_max m))"

text \<open>\<^verbatim>\<open>p.rfind(c)\<close>: the highest index of \<open>c\<close> in \<open>p\<close>, or -1; \<^verbatim>\<open>s.rstrip(c)\<close>.\<close>

definition rfind :: "string \<Rightarrow> char \<Rightarrow> int" where
  "rfind p c = (if c \<in> set p then int (length p) - 1 - int (length (takeWhile (\<lambda>x. x \<noteq> c) (rev p)))
                else - 1)"

definition rstrip :: "char \<Rightarrow> string \<Rightarrow> string" where
  "rstrip c s = rev (dropWhile (\<lambda>x. x = c) (rev s))"

text \<open>
  \<^verbatim>\<open>os.path.dirname(p)\<close> of \<^verbatim>\<open>posixpath.py\<close>:
  \<^verbatim>\<open>
  i = p.rfind('/') + 1
  head = p[:i]
  if head and head != '/'*len(head):
      head = head.rstrip('/')
  return head
  \<close>
\<close>

definition dirname :: "string \<Rightarrow> string" where
  "dirname p =
     (let i = rfind p CHR ''/'' + 1;
          head = take (nat i) p
      in if head \<noteq> [] \<and> head \<noteq> replicate (length head) CHR ''/'' then rstrip CHR ''/'' head
         else head)"

text \<open>
  \<^verbatim>\<open>
  def template_to_base_path(template, google_songs):
      if template == os.getcwd() or template == '%suggested%':
          base_path = os.getcwd()
      else:
          template = os.path.abspath(template)
          song_paths = [template_to_filepath(template, song) for song in google_songs]
          base_path = os.path.dirname(os.path.commonprefix(song_paths))
      return base_path
  \<close>
  The working directory, \<^verbatim>\<open>os.path.abspath\<close> (which depends on it) and the library function
  \<^verbatim>\<open>template_to_filepath\<close> of \<^verbatim>\<open>gmusicapi_wrapper.utils\<close> are parameters.
\<close>

definition template_to_base_path ::
  "string \<Rightarrow> (string \<Rightarrow> string) \<Rightarrow> (string \<Rightarrow> 'a \<Rightarrow> string) \<Rightarrow> string \<Rightarrow> 'a list \<Rightarrow> string result" where
  "template_to_base_path getcwd abspath template_to_filepath template google_songs =
     (if template = getcwd \<or> template = ''%suggested%'' then Inr getcwd
      else
        let template' = abspath template;
            song_paths = map (template_to_filepath template') google_songs
        in bind (commonprefix song_paths) (\<lambda>prefix. Inr (dirname prefix)))"

text \<open>
  The part of a path up to and including its last slash, and what it is for a path to lie
  in a directory: the path continues the directory's name, and a slash stands at the
  border (the first character after the name, or the last of the name, as in \<open>/\<close>).
\<close>

definition path_head :: "string \<Rightarrow> string" where
  "path_head p = rev (dropWhile (\<lambda>x. x \<noteq> CHR ''/'') (rev p))"

definition in_directory :: "string \<Rightarrow> string \<Rightarrow> bool" where
  "in_directory d p =
     (prefix d p \<and>
      ((drop (length d) p \<noteq> [] \<and> hd (drop (length d) p) = CHR ''/'') \<or>
       (d \<noteq> [] \<and> last d = CHR ''/'')))"

section \<open>The command line and the run of \<open>main\<close>\<close>

text \<open>
  \<^verbatim>\<open>docopt(__doc__)\<close> returns a dictionary from the names of the usage text (options with
  their dashes, arguments in angle brackets, commands) to values: \<^verbatim>\<open>None\<close>, a boolean, a
  string or a list of strings. \<open>main\<close> later stores an integer or \<^verbatim>\<open>float('inf')\<close> under
  \<^verbatim>\<open>max-depth\<close>.
\<close>

datatype clival = CNone | CBool bool | CStr string | CList "string list" | CInt int | CInf

type_synonym cli = "string \<rightharpoonup> clival"

text \<open>
  \<^verbatim>\<open>cli = dict((key.lstrip("-<").rstrip(">"), value) for key, value in docopt(__doc__).items())\<close>
\<close>

definition lstrip_chars :: "string \<Rightarrow> string \<Rightarrow> string" where
  "lstrip_chars chars s = dropWhile (\<lambda>c. c \<in> set chars) s"

definition rstrip_chars :: "string \<Rightarrow> string \<Rightarrow> string" where
  "rstrip_chars chars s = rev (dropWhile (\<lambda>c. c \<in> set chars) (rev s))"

definition cli_dict :: "(string \<times> clival) list \<Rightarrow> cli" where
  "cli_dict items =
     fold (\<lambda>(key, value) d. d(rstrip_chars ''>'' (lstrip_chars ''-<'' key) \<mapsto> value)) items Map.empty"

definition cli_item :: "cli \<Rightarrow> string \<Rightarrow> clival result" where
  "cli_item cli k = (case cli k of None \<Rightarrow> Inl (KeyError (PStr k)) | Some v \<Rightarrow> Inr v)"

fun truthy :: "clival \<Rightarrow> bool" where
  "truthy CNone = False"
| "truthy (CBool b) = b"
| "truthy (CStr s) = (s \<noteq> [])"
| "truthy (CList l) = (l \<noteq> [])"
| "truthy (CInt n) = (n \<noteq> 0)"
| "truthy CInf = True"

text \<open>
  \<^verbatim>\<open>int(cli['max-depth'])\<close>, and the filters
  \<^verbatim>\<open>[tuple(filt.split(':', 1)) for filt in cli['include-filter']]\<close>.
\<close>

fun cli_int :: "clival \<Rightarrow> int result" where
  "cli_int (CStr s) = int_of_str s"
| "cli_int (CInt n) = Inr n"
| "cli_int (CBool b) = Inr (if b then 1 else 0)"
| "cli_int CInf = Inl OverflowError"
| "cli_int v = Inl TypeError"

definition split_once :: "string \<Rightarrow> string list" where
  "split_once filt =
     (if CHR '':'' \<in> set filt
      then [takeWhile (\<lambda>c. c \<noteq> CHR '':'') filt, tl (dropWhile (\<lambda>c. c \<noteq> CHR '':'') filt)]
      else [filt])"

fun filters_of :: "clival \<Rightarrow> string list list result" where
  "filters_of (CList l) = Inr (map split_once l)"
| "filters_of (CStr s) = Inr (map (\<lambda>c. split_once [c]) s)"
| "filters_of v = Inl TypeError"

text \<open>
  The names bound in the module when \<open>main\<close> runs: those of the import statements, the
  assignments and the function definitions of \<^verbatim>\<open>gmsync.py\<close>, and Python's built-in
  functions (the built-in exception classes and constants are left out; their names are
  capitalised or dunder names). A global name that is in neither raises \<^verbatim>\<open>NameError\<close>
  when it is read.
\<close>

definition module_globals :: "string list" where
  "module_globals =
     [''__name__'', ''__doc__'', ''__file__'', ''__builtins__'',
      ''logging'', ''os'', ''sys'', ''shutil'', ''tempfile'', ''json'', ''docopt'',
      ''MusicManagerWrapper'', ''MobileClientWrapper'', ''compare_song_collections'',
      ''template_to_filepath'', ''utils'', ''OAUTH_FILEPATH'', ''reduce'', ''QUIET'', ''logger'', ''sh'',
      ''template_to_base_path'', ''metadata_from_mobile_client_song'', ''login_mobile_client'',
      ''login_mobile_client_from_cache'', ''removeEmptyFolders'', ''main'']"

definition builtin_functions :: "string list" where
  "builtin_functions =
     [''abs'', ''aiter'', ''all'', ''anext'', ''any'', ''ascii'', ''bin'', ''bool'', ''breakpoint'',
      ''bytearray'', ''bytes'', ''callable'', ''chr'', ''classmethod'', ''compile'', ''complex'',
      ''delattr'', ''dict'', ''dir'', ''divmod'', ''enumerate'', ''eval'', ''exec'', ''filter'', ''float'',
      ''format'', ''frozenset'', ''getattr'', ''globals'', ''hasattr'', ''hash'', ''help'', ''hex'', ''id'',
      ''input'', ''int'', ''isinstance'', ''issubclass'', ''iter'', ''len'', ''list'', ''locals'', ''map'',
      ''max'', ''memoryview'', ''min'', ''next'', ''object'', ''oct'', ''open'', ''ord'', ''pow'', ''print'',
      ''property'', ''range'', ''repr'', ''reversed'', ''round'', ''set'', ''setattr'', ''slice'',
      ''sorted'', ''staticmethod'', ''str'', ''sum'', ''super'', ''tuple'', ''type'', ''vars'', ''zip'',
      ''__import__'']"

definition load_global :: "string \<Rightarrow> unit result" where
  "load_global name =
     (if name \<in> set module_globals \<or> name \<in> set builtin_functions then Inr ()
      else Inl (NameError name))"

text \<open>
  A playlist of \<^verbatim>\<open>get_all_user_playlist_contents\<close> (its \<^verbatim>\<open>name\<close> and \<^verbatim>\<open>tracks\<close>), the calls
  \<open>main\<close> makes to the outside, in the order it makes them, and what the outside answers.
  Of the log only the song lines of a dry run (logged at level \<^verbatim>\<open>QUIET\<close>) are recorded,
  as the \<open>Report\<close> events. \<open>get_local_songs\<close> reads the file system, which the downloads
  and moves before it have changed: its answer is a function of the calls made so far.
  \<open>m3u_entry\<close> stands for the lines 323 to 329 of \<open>create_playlist_file\<close>, which render
  the two lines of a playlist file for one resolved song (given \<open>outpath\<close>).
\<close>

record playlist =
  pl_name :: string
  pl_tracks :: "song list"

datatype event =
    Docopt
  | PPrint
  | MMLogin
  | MCLogin
  | GetGoogleSongs
  | GetLocalSongs clival
  | Download "song list"
  | ReportDownload song
  | MakePath string
  | Move path path
  | RemoveEmptyFolders string
  | GetAllSongs
  | GetPlaylists
  | WritePlaylist string "string list"
  | Upload "path list"
  | ReportUpload path
  | ReportFilter path
  | ReportExclude path
  | Remove path
  | MMLogout
  | MCLogout

record world =
  docopt :: "(string \<times> clival) list result"
  getcwd :: string
  abspath :: "string \<Rightarrow> string"
  relpath :: "string \<Rightarrow> string \<Rightarrow> string"
  template_to_filepath :: "string \<Rightarrow> song \<Rightarrow> string"
  local_key :: "path \<Rightarrow> pyval list"
  google_key :: "song \<Rightarrow> pyval list"
  mm_is_authenticated :: bool
  mc_is_authenticated :: bool
  get_google_songs :: "string list list \<Rightarrow> string list list \<Rightarrow> clival \<Rightarrow> clival \<Rightarrow> song list \<times> song list"
  get_local_songs :: "event list \<Rightarrow> clival \<Rightarrow> path list \<times> path list \<times> path list"
  get_all_songs :: "song list"
  get_all_user_playlist_contents :: "playlist list"
  m3u_entry :: "string \<Rightarrow> song \<Rightarrow> string list result"

text \<open>
  A run threads the list of calls made so far and ends normally or in an exception.
\<close>

type_synonym 'a run = "event list \<Rightarrow> event list \<times> 'a result"

definition ret :: "'a \<Rightarrow> 'a run" where
  "ret v = (\<lambda>t. (t, Inr v))"

definition raise :: "error \<Rightarrow> 'a run" where
  "raise e = (\<lambda>t. (t, Inl e))"

definition lift :: "'a result \<Rightarrow> 'a run" where
  "lift r = (\<lambda>t. (t, r))"

definition emit :: "event \<Rightarrow> unit run" where
  "emit ev = (\<lambda>t. (t @ [ev], Inr ()))"

definition history :: "event list run" where
  "history = (\<lambda>t. (t, Inr t))"

definition seq :: "'a run \<Rightarrow> ('a \<Rightarrow> 'b run) \<Rightarrow> 'b run" where
  "seq m f = (\<lambda>t. case m t of (t', Inl e) \<Rightarrow> (t', Inl e) | (t', Inr v) \<Rightarrow> f v t')"

fun for_each :: "('a \<Rightarrow> unit run) \<Rightarrow> 'a list \<Rightarrow> unit run" where
  "for_each body [] = ret ()"
| "for_each body (x # xs) = seq (body x) (\<lambda>_. for_each body xs)"

text \<open>
  The exit status of the process: 0 after a normal end and after \<^verbatim>\<open>sys.exit()\<close> with no
  argument, the low byte of the argument of \<^verbatim>\<open>sys.exit(n)\<close>, and 1 after any other exception
  that nothing caught.
\<close>

definition exit_status :: "unit result \<Rightarrow> int" where
  "exit_status r =
     (case r of
        Inr u \<Rightarrow> 0
      | Inl (SystemExit None) \<Rightarrow> 0
      | Inl (SystemExit (Some n)) \<Rightarrow> n mod 256
      | Inl e \<Rightarrow> 1)"

text \<open>
  \<^verbatim>\<open>os.path.join(a, b)\<close> of \<^verbatim>\<open>posixpath.py\<close> for two components, and \<^verbatim>\<open>name + '.m3u'\<close>,
  which is \<^verbatim>\<open>TypeError\<close> unless \<open>name\<close> is a string.
\<close>

definition join :: "string \<Rightarrow> string \<Rightarrow> string" where
  "join a b =
     (if take 1 b = ''/'' then b
      else if a = [] \<or> last a = CHR ''/'' then a @ b
      else a @ ''/'' @ b)"

fun str_add :: "clival \<Rightarrow> string \<Rightarrow> string result" where
  "str_add (CStr s) t = Inr (s @ t)"
| "str_add v t = Inl TypeError"

fun cli_str :: "clival \<Rightarrow> string result" where
  "cli_str (CStr s) = Inr s"
| "cli_str v = Inl TypeError"

text \<open>
  \<^verbatim>\<open>
  def create_playlist_file (name, songs, outpath):
      filename = os.path.join(outpath, name + '.m3u')
      if not cli['dry-run']:
          m3u = [u'#EXTM3U']
          for track in songs:
              id = songid(track)
              song = songs_dict[id]
              ...
              m3u.append(u'#EXTINF,' + duration + ',' + song['artist'] + ' - ' + song['title'])
              m3u.append(os.path.relpath(songpath, outpath))
          ...
          shutil.move(temp.name, filename)
      logger.log(QUIET, "Playlist ({0} tracks): {1}".format(len(songs), filename))
  \<close>
  \<open>m3u_loop\<close> is the loop over the tracks, with the lines collected so far.
\<close>

fun m3u_loop ::
  "(song \<Rightarrow> string list result) \<Rightarrow> (pyval \<rightharpoonup> song) \<Rightarrow> song list \<Rightarrow> string list \<Rightarrow> string list result" where
  "m3u_loop entry songs_dict [] m3u = Inr m3u"
| "m3u_loop entry songs_dict (track # songs) m3u =
     (case songid track of
        Inl e \<Rightarrow> Inl e
      | Inr ident \<Rightarrow>
          (case songs_dict ident of
             None \<Rightarrow> Inl (KeyError ident)
           | Some song \<Rightarrow>
               (case entry song of
                  Inl e \<Rightarrow> Inl e
                | Inr lines \<Rightarrow> m3u_loop entry songs_dict songs (m3u @ lines))))"

definition create_playlist_file ::
  "world \<Rightarrow> cli \<Rightarrow> (pyval \<rightharpoonup> song) \<Rightarrow> clival \<Rightarrow> song list \<Rightarrow> string \<Rightarrow> unit run" where
  "create_playlist_file w cli songs_dict name songs outpath =
     seq (lift (str_add name ''.m3u'')) (\<lambda>file.
     let filename = join outpath file in
     seq (lift (cli_item cli ''dry-run'')) (\<lambda>dry_run.
     if \<not> truthy dry_run
     then seq (lift (m3u_loop (m3u_entry w outpath) songs_dict songs [''#EXTM3U'']))
            (\<lambda>m3u. emit (WritePlaylist filename m3u))
     else ret ()))"

text \<open>
  \<^verbatim>\<open>favorites_playlist_name = cli['favorites'] if 'favorites' in cli else '___auto_favorites___'\<close>
\<close>

definition favorites_playlist_name :: "cli \<Rightarrow> clival result" where
  "favorites_playlist_name cli =
     (if ''favorites'' \<in> dom cli then cli_item cli ''favorites'' else Inr (CStr ''___auto_favorites___''))"

text \<open>
  \<^verbatim>\<open>
  def download_songs(songs_to_download):
      if cli['dry-run']:
          if songs_to_download:
              for song in songs_to_download:
                  ...
                  song_id = song['id']
                  logger.log(QUIET, "{0} -- {1} -- {2} ({3})".format(title, artist, album, song_id))
      else:
          if songs_to_download:
              mmw.download(songs_to_download, template=cli['output'])

  def download_missing_google_songs(mmw_songs):
      matched_local_songs, __, __ = mmw.get_local_songs(cli['input'], exclude_patterns=cli['exclude'])
      songs_to_download = compare_song_collections(mmw_songs, matched_local_songs)
      songs_to_download.sort(key=...)
      return download_songs(songs_to_download)
  \<close>
\<close>

definition download_songs :: "cli \<Rightarrow> song list \<Rightarrow> unit run" where
  "download_songs cli songs_to_download =
     seq (lift (cli_item cli ''dry-run'')) (\<lambda>dry_run.
     if truthy dry_run
     then for_each (\<lambda>song. seq (lift (getitem song ''id'')) (\<lambda>song_id. emit (ReportDownload song)))
            songs_to_download
     else if songs_to_download \<noteq> [] then emit (Download songs_to_download)
     else ret ())"

definition download_missing_google_songs :: "world \<Rightarrow> cli \<Rightarrow> song list \<Rightarrow> unit run" where
  "download_missing_google_songs w cli mmw_songs =
     seq (lift (cli_item cli ''input'')) (\<lambda>input.
     seq (lift (cli_item cli ''exclude'')) (\<lambda>exclude.
     seq history (\<lambda>t.
     seq (emit (GetLocalSongs input)) (\<lambda>_.
     case get_local_songs w t input of (matched_local_songs, filtered, excluded) \<Rightarrow>
     seq (lift (songs_to_download_sorted (google_key w) (local_key w) mmw_songs matched_local_songs))
       (download_songs cli)))))"

text \<open>
  The block under \<^verbatim>\<open>if cli['removed']:\<close> (lines 259 to 280); \<^verbatim>\<open>cli['input'][0]\<close> is
  \<open>cli_first\<close>.
\<close>

fun cli_first :: "clival \<Rightarrow> string result" where
  "cli_first (CList (x # xs)) = Inr x"
| "cli_first (CList []) = Inl IndexError"
| "cli_first (CStr (c # cs)) = Inr [c]"
| "cli_first (CStr []) = Inl IndexError"
| "cli_first v = Inl TypeError"

definition move_removed :: "world \<Rightarrow> cli \<Rightarrow> song list \<Rightarrow> song list \<Rightarrow> unit run" where
  "move_removed w cli matched_google_songs filtered_google_songs =
     seq (lift (bind (cli_item cli ''removed'') cli_str)) (\<lambda>removed.
     let removed_dir = abspath w removed in
     seq (emit (MakePath removed_dir)) (\<lambda>_.
     seq (lift (cli_item cli ''input'')) (\<lambda>input.
     seq (lift (cli_item cli ''exclude'')) (\<lambda>exclude.
     seq history (\<lambda>t.
     seq (emit (GetLocalSongs input)) (\<lambda>_.
     seq (for_each
            (\<lambda>filepath.
               seq (lift (cli_first input)) (\<lambda>input0.
               let rel_file_path = relpath w filepath input0;
                   removed_filepath = join removed_dir rel_file_path
               in seq (emit (MakePath (dirname removed_filepath))) (\<lambda>_.
                  emit (Move filepath removed_filepath))))
            (songs_to_move (local_key w) (google_key w) (get_local_songs w t input)
               matched_google_songs filtered_google_songs)) (\<lambda>_.
     seq (lift (cli_first input)) (\<lambda>input0. emit (RemoveEmptyFolders input0)))))))))"

text \<open>
  The block under \<^verbatim>\<open>if cli['playlists']:\<close> (lines 282 to 366).
\<close>

definition sync_playlists :: "world \<Rightarrow> cli \<Rightarrow> song list \<Rightarrow> song list \<Rightarrow> unit run" where
  "sync_playlists w cli matched_google_songs filtered_google_songs =
     seq (emit GetAllSongs) (\<lambda>_.
     let all_songs = get_all_songs w in
     seq (lift (reduce songs_to_dict all_songs Map.empty)) (\<lambda>songs_dict.
     seq (lift (tracks_dict_of matched_google_songs filtered_google_songs)) (\<lambda>tracks_dict.
     seq (lift (bind (cli_item cli ''playlists'') cli_str)) (\<lambda>playlists_arg.
     let playlists_dir = abspath w playlists_arg in
     seq (emit (MakePath playlists_dir)) (\<lambda>_.
     seq (emit GetPlaylists) (\<lambda>_.
     let playlists = get_all_user_playlist_contents w;
         playlist_tracks = concat (map pl_tracks playlists)
     in
     seq (lift (get_mmw_tracks tracks_dict playlist_tracks)) (\<lambda>playlist_tracks.
     seq (download_missing_google_songs w cli playlist_tracks) (\<lambda>_.
     seq (for_each
            (\<lambda>playlist. create_playlist_file w cli songs_dict (CStr (pl_name playlist))
               (pl_tracks playlist) playlists_dir)
            playlists) (\<lambda>_.
     seq (lift (favorites_playlist_name cli)) (\<lambda>favorites_name.
     seq (lift (thumbs_up_of all_songs)) (\<lambda>thumbs_up.
     seq (lift (get_mmw_tracks tracks_dict thumbs_up)) (\<lambda>thumbs_up_tracks.
     seq (download_missing_google_songs w cli thumbs_up_tracks) (\<lambda>_.
     create_playlist_file w cli songs_dict favorites_name thumbs_up playlists_dir)))))))))))))"

text \<open>
  The branch \<^verbatim>\<open>if cli['down']:\<close> (lines 219 to 366) and the upload branch (lines 368 to 427):
  \<^verbatim>\<open>
  songs_to_upload = compare_song_collections(matched_local_songs, matched_google_songs)
  # Sort lists for sensible output.
  songs_to_upload.sort()
  songs_to_exclude.sort()
  if cli['dry-run']:
      ... for song in songs_to_upload: logger.log(QUIET, song) ...
      ... for song in songs_to_filter: logger.log(QUIET, song) ...
      ... for song in songs_to_exclude: logger.log(QUIET, song) ...
  else:
      if songs_to_upload:
          mmw.upload(songs_to_upload, enable_matching=cli['match'], delete_on_success=cli['delete-on-success'])
      else:
          if cli['delete-on-success']:
              for song in matched_local_songs: ... os.remove(song) ...
  \<close>
\<close>

definition sync_down :: "world \<Rightarrow> cli \<Rightarrow> string list list \<Rightarrow> string list list \<Rightarrow> unit run" where
  "sync_down w cli include_filters exclude_filters =
     seq (lift (cli_item cli ''all-includes'')) (\<lambda>all_includes.
     seq (lift (cli_item cli ''all-excludes'')) (\<lambda>all_excludes.
     seq (emit GetGoogleSongs) (\<lambda>_.
     case get_google_songs w include_filters exclude_filters all_includes all_excludes of
       (matched_google_songs, filtered_google_songs) \<Rightarrow>
     seq (lift (bind (cli_item cli ''output'') cli_str)) (\<lambda>output.
     seq (lift (template_to_base_path (getcwd w) (abspath w) (template_to_filepath w) output
                  matched_google_songs)) (\<lambda>base_path.
     let cli = cli(''input'' \<mapsto> CList [base_path]) in
     seq (download_missing_google_songs w cli matched_google_songs) (\<lambda>_.
     seq (lift (cli_item cli ''removed'')) (\<lambda>removed.
     seq (if truthy removed then move_removed w cli matched_google_songs filtered_google_songs
          else ret ()) (\<lambda>_.
     seq (lift (cli_item cli ''playlists'')) (\<lambda>playlists.
     if truthy playlists then sync_playlists w cli matched_google_songs filtered_google_songs
     else ret ())))))))))"

definition sync_up :: "world \<Rightarrow> cli \<Rightarrow> string list list \<Rightarrow> string list list \<Rightarrow> unit run" where
  "sync_up w cli include_filters exclude_filters =
     seq (emit GetGoogleSongs) (\<lambda>_.
     case get_google_songs w [] [] (CBool False) (CBool False) of
       (matched_google_songs, unused) \<Rightarrow>
     seq (lift (cli_item cli ''input'')) (\<lambda>input.
     seq (lift (cli_item cli ''all-includes'')) (\<lambda>all_includes.
     seq (lift (cli_item cli ''all-excludes'')) (\<lambda>all_excludes.
     seq (lift (cli_item cli ''exclude'')) (\<lambda>exclude.
     seq (lift (cli_item cli ''max-depth'')) (\<lambda>max_depth.
     seq history (\<lambda>t.
     seq (emit (GetLocalSongs input)) (\<lambda>_.
     case get_local_songs w t input of
       (matched_local_songs, songs_to_filter, songs_to_exclude) \<Rightarrow>
     let songs_to_upload =
           songs_to_upload_sorted (local_key w) (google_key w) matched_local_songs matched_google_songs;
         songs_to_exclude = sort songs_to_exclude
     in
     seq (lift (cli_item cli ''dry-run'')) (\<lambda>dry_run.
     if truthy dry_run then
       seq (for_each (\<lambda>song. emit (ReportUpload song)) songs_to_upload) (\<lambda>_.
       seq (for_each (\<lambda>song. emit (ReportFilter song)) songs_to_filter) (\<lambda>_.
       for_each (\<lambda>song. emit (ReportExclude song)) songs_to_exclude))
     else if songs_to_upload \<noteq> [] then
       seq (lift (cli_item cli ''match'')) (\<lambda>match.
       seq (lift (cli_item cli ''delete-on-success'')) (\<lambda>delete_on_success.
       emit (Upload songs_to_upload)))
     else
       seq (lift (cli_item cli ''delete-on-success'')) (\<lambda>delete_on_success.
       if truthy delete_on_success then for_each (\<lambda>song. emit (Remove song)) matched_local_songs
       else ret ()))))))))))"

text \<open>
  Lines 186 to 203 of \<open>main\<close>: the recursion depth, the defaults of \<^verbatim>\<open>input\<close> and
  \<^verbatim>\<open>output\<close>, the filters.
\<close>

definition normalise_cli :: "string \<Rightarrow> cli \<Rightarrow> (cli \<times> string list list \<times> string list list) result" where
  "normalise_cli cwd cli =
     bind (cli_item cli ''no-recursion'') (\<lambda>no_recursion.
     bind (if truthy no_recursion then Inr (cli(''max-depth'' \<mapsto> CInt 0))
           else bind (cli_item cli ''max-depth'') (\<lambda>max_depth.
                if truthy max_depth
                then bind (cli_int max_depth) (\<lambda>n. Inr (cli(''max-depth'' \<mapsto> CInt n)))
                else Inr (cli(''max-depth'' \<mapsto> CInf)))) (\<lambda>cli.
     bind (cli_item cli ''quiet'') (\<lambda>quiet.
     bind (cli_item cli ''input'') (\<lambda>input.
     let cli = (if \<not> truthy input then cli(''input'' \<mapsto> CList [cwd]) else cli) in
     bind (cli_item cli ''output'') (\<lambda>output.
     let cli = (if \<not> truthy output then cli(''output'' \<mapsto> CStr cwd) else cli) in
     bind (bind (cli_item cli ''include-filter'') filters_of) (\<lambda>include_filters.
     bind (bind (cli_item cli ''exclude-filter'') filters_of) (\<lambda>exclude_filters.
     Inr (cli, include_filters, exclude_filters))))))))"

text \<open>
  \<open>main\<close> from line 186 on: it runs when line 184 has not raised.
  \<^verbatim>\<open>
  mmw = MusicManagerWrapper(enable_logging=cli['log'])
  mmw.login(oauth_filename=cli['cred'], uploader_id=cli['uploader-id'])
  if not mmw.is_authenticated:
      sys.exit()
  mcw = MobileClientWrapper(enable_logging=cli['log'])
  if cli['playlists']:
      login_mobile_client_from_cache(mcw, oauth_filename=cli['cred'])
      if not mcw.is_authenticated:
          sys.exit()
  if cli['down']: ... else: ...
  mmw.logout()
  mcw.logout()
  \<close>
\<close>

definition main_after_pprint :: "world \<Rightarrow> cli \<Rightarrow> unit run" where
  "main_after_pprint w cli =
     seq (lift (normalise_cli (getcwd w) cli)) (\<lambda>(cli, include_filters, exclude_filters).
     seq (lift (cli_item cli ''log'')) (\<lambda>log.
     seq (lift (cli_item cli ''cred'')) (\<lambda>cred.
     seq (lift (cli_item cli ''uploader-id'')) (\<lambda>uploader_id.
     seq (emit MMLogin) (\<lambda>_.
     seq (if \<not> mm_is_authenticated w then raise (SystemExit None) else ret ()) (\<lambda>_.
     seq (lift (cli_item cli ''playlists'')) (\<lambda>playlists.
     seq (if truthy playlists
          then seq (emit MCLogin) (\<lambda>_.
               if \<not> mc_is_authenticated w then raise (SystemExit None) else ret ())
          else ret ()) (\<lambda>_.
     seq (lift (cli_item cli ''down'')) (\<lambda>down.
     seq (if truthy down then sync_down w cli include_filters exclude_filters
          else sync_up w cli include_filters exclude_filters) (\<lambda>_.
     seq (emit MMLogout) (\<lambda>_.
     emit MCLogout)))))))))))"

text \<open>
  \<^verbatim>\<open>
  def main():
      cli = dict((key.lstrip("-<").rstrip(">"), value) for key, value in docopt(__doc__).items())

      pp.pprint(cli);
      ...
  \<close>
\<close>

definition main :: "world \<Rightarrow> event list \<times> unit result" where
  "main w =
     seq (seq (emit Docopt) (\<lambda>_. lift (docopt w))) (\<lambda>items.
     let cli = cli_dict items in
     seq (lift (load_global ''pp'')) (\<lambda>pp.
     seq (emit PPrint) (\<lambda>_.
     main_after_pprint w cli))) []"

text \<open>
  The calls that fetch, compare, transfer, move or write: every call but the parsing of
  the command line, the printing of it, and the logins and logouts.
\<close>

definition reconciliation_step :: "event \<Rightarrow> bool" where
  "reconciliation_step ev =
     (case ev of
        Docopt \<Rightarrow> False | PPrint \<Rightarrow> False | MMLogin \<Rightarrow> False | MCLogin \<Rightarrow> False
      | MMLogout \<Rightarrow> False | MCLogout \<Rightarrow> False
      | _ \<Rightarrow> True)"

text \<open>
  The names of the usage text of \<^verbatim>\<open>gmsync.py\<close> (lines 8 to 57). docopt's result has an
  entry for each of them, whether or not it was given on the command line: an option
  that takes an argument and was not given has the value \<^verbatim>\<open>None\<close>.
\<close>

definition docopt_keys :: "string list" where
  "docopt_keys =
     [''--help'', ''up'', ''down'', ''--exclude'', ''--include-filter'', ''--exclude-filter'',
      ''--cred'', ''--uploader-id'', ''--log'', ''--match'', ''--dry-run'', ''--quiet'',
      ''--delete-on-success'', ''--no-recursion'', ''--max-depth'', ''--all-includes'',
      ''--all-excludes'', ''--playlists'', ''--removed'', ''--favorites'', ''<input>'', ''<output>'']"

definition docopt_result :: "(string \<times> clival) list \<Rightarrow> bool" where
  "docopt_result items = (set (map fst items) = set docopt_keys)"

section \<open>Example data\<close>

text \<open>A music-manager song with identifier \<open>k\<close>, a playlist entry for it, and a lookup of three songs.\<close>

definition ex_track :: "string \<Rightarrow> song" where
  "ex_track k = [''id'' \<mapsto> PStr k]"

definition ex_entry :: "string \<Rightarrow> string \<Rightarrow> song" where
  "ex_entry k e = [''trackId'' \<mapsto> PStr k, ''id'' \<mapsto> PStr e]"

definition ex_tracks_dict :: "pyval \<rightharpoonup> song" where
  "ex_tracks_dict = [PStr ''A'' \<mapsto> ex_track ''A'', PStr ''B'' \<mapsto> ex_track ''B'', PStr ''C'' \<mapsto> ex_track ''C'']"

text \<open>Mobile-client songs with a rating and a modification time.\<close>

definition ex_song :: "string \<Rightarrow> string \<Rightarrow> string \<Rightarrow> song" where
  "ex_song k r ts = [''id'' \<mapsto> PStr k, ''rating'' \<mapsto> PStr r, ''lastModifiedTimestamp'' \<mapsto> PStr ts]"

definition ex_all_songs :: "song list" where
  "ex_all_songs = [ex_song ''a'' ''5'' ''100'', ex_song ''n'' ''3'' ''400'',
                   ex_song ''b'' ''4'' ''300'', ex_song ''c'' ''5'' ''200'']"

text \<open>Tags of two local files, and a music-manager song with its metadata.\<close>

definition ex_tags :: "path \<Rightarrow> pyval list" where
  "ex_tags p = (if p = ''a/z.mp3'' then [PStr ''Zed'', PStr ''Z'', PInt 1]
                else [PStr ''Abba'', PStr ''A'', PInt 1])"

definition ex_mm_song :: "string \<Rightarrow> string \<Rightarrow> string \<Rightarrow> int \<Rightarrow> song" where
  "ex_mm_song k artist album n =
     [''id'' \<mapsto> PStr k, ''artist'' \<mapsto> PStr artist, ''album'' \<mapsto> PStr album, ''track_number'' \<mapsto> PInt n]"

text \<open>Stand-ins for \<^verbatim>\<open>os.path.abspath\<close> in \<open>/home/u\<close> and for \<^verbatim>\<open>template_to_filepath\<close>.\<close>

definition ex_abspath :: "string \<Rightarrow> string" where
  "ex_abspath p = (if take 1 p = ''/'' then p else ''/home/u/'' @ p)"

definition ex_template_to_filepath :: "string \<Rightarrow> string \<Rightarrow> string" where
  "ex_template_to_filepath template song = template @ ''/'' @ song"

text \<open>
  docopt's result for \<^verbatim>\<open>gmsync down -p playlists\<close>, and an outside world with an empty
  library in which both logins succeed or both fail.
\<close>

definition ex_docopt_down :: "(string \<times> clival) list" where
  "ex_docopt_down =
     [(''--help'', CBool False), (''up'', CBool False), (''down'', CBool True),
      (''--exclude'', CList []), (''--include-filter'', CList []), (''--exclude-filter'', CList []),
      (''--cred'', CStr ''oauth''), (''--uploader-id'', CNone), (''--log'', CBool False),
      (''--match'', CBool False), (''--dry-run'', CBool False), (''--quiet'', CBool False),
      (''--delete-on-success'', CBool False), (''--no-recursion'', CBool False),
      (''--max-depth'', CNone), (''--all-includes'', CBool False), (''--all-excludes'', CBool False),
      (''--playlists'', CStr ''playlists''), (''--removed'', CNone), (''--favorites'', CNone),
      (''<input>'', CList []), (''<output>'', CNone)]"

definition ex_world :: "bool \<Rightarrow> world" where
  "ex_world auth =
     \<lparr> docopt = Inr ex_docopt_down,
       getcwd = ''/home/u'',
       abspath = ex_abspath,
       relpath = (\<lambda>p start. drop (Suc (length start)) p),
       template_to_filepath = (\<lambda>template song. template),
       local_key = ex_tags,
       google_key = download_key,
       mm_is_authenticated = auth,
       mc_is_authenticated = auth,
       get_google_songs = (\<lambda>inc exc ai ae. ([], [])),
       get_local_songs = (\<lambda>t input. ([], [], [])),
       get_all_songs = [],
       get_all_user_playlist_contents = [],
       m3u_entry = (\<lambda>outpath song. Inr []) \<rparr>"

text \<open>
  A lookup in which the track identifier and the entry identifier of one playlist entry
  are both keys, of different songs; a rendering of a song by its title; a world whose
  local scan finds two files.
\<close>

definition ex_titled :: "string \<Rightarrow> string \<Rightarrow> song" where
  "ex_titled k title = [''id'' \<mapsto> PStr k, ''title'' \<mapsto> PStr title]"

definition ex_songs_dict :: "pyval \<rightharpoonup> song" where
  "ex_songs_dict = [PStr ''T1'' \<mapsto> ex_titled ''T1'' ''X'', PStr ''e1'' \<mapsto> ex_titled ''e1'' ''Y'']"

definition ex_m3u_entry :: "song \<Rightarrow> string list result" where
  "ex_m3u_entry song =
     (case song ''title'' of Some (PStr title) \<Rightarrow> Inr [title] | _ \<Rightarrow> Inl (KeyError (PStr ''title'')))"

definition ex_world_library :: world where
  "ex_world_library =
     (ex_world True)\<lparr> get_local_songs := (\<lambda>t input. ([''b/a.mp3'', ''a/z.mp3''], [], [])) \<rparr>"

section \<open>Properties of the playlist resolution\<close>

lemma songid_cases:
  "songid track = (case track ''trackId'' of Some v \<Rightarrow> Inr v
     | None \<Rightarrow> (case track ''id'' of Some v \<Rightarrow> Inr v | None \<Rightarrow> Inl (KeyError (PStr ''id''))))"
  by (auto simp: songid_def getitem_def split: option.splits)

lemma removeAll_filter_dom:
  "removeAll k (filter (\<lambda>x. x \<notin> dom seen) ks) = filter (\<lambda>x. x \<notin> dom (seen(k \<mapsto> b))) ks"
  by (induction ks) auto

lemma get_mmw_tracks_loop_Inr:
  "map songid songs = map Inr ks \<Longrightarrow> \<forall>k\<in>set ks. k \<in> dom seen \<or> k \<in> dom tracks_dict \<Longrightarrow>
   get_mmw_tracks_loop tracks_dict songs tracks seen =
     Inr (tracks @ map (\<lambda>k. the (tracks_dict k)) (dedup_first (filter (\<lambda>k. k \<notin> dom seen) ks)))"
proof (induction songs arbitrary: ks tracks seen)
  case Nil
  then show ?case by simp
next
  case (Cons song songs)
  then obtain k ks' where ks: "ks = k # ks'" and k: "songid song = Inr k"
    and rest: "map songid songs = map Inr ks'"
    by (cases ks) auto
  show ?case
  proof (cases "k \<in> dom seen")
    case True
    with Cons.prems(2) ks have "\<forall>k\<in>set ks'. k \<in> dom seen \<or> k \<in> dom tracks_dict" by simp
    from Cons.IH [OF rest this] True k ks show ?thesis by simp
  next
    case False
    with Cons.prems(2) ks obtain t where t: "tracks_dict k = Some t" by auto
    from Cons.prems(2) ks
    have "\<forall>k'\<in>set ks'. k' \<in> dom (seen(k \<mapsto> True)) \<or> k' \<in> dom tracks_dict" by auto
    note ih = Cons.IH [OF rest this, of "tracks @ [t]"]
    have step: "get_mmw_tracks_loop tracks_dict (song # songs) tracks seen =
        get_mmw_tracks_loop tracks_dict songs (tracks @ [t]) (seen(k \<mapsto> True))"
      using False k t by simp
    have eq: "dedup_first (filter (\<lambda>k. k \<notin> dom seen) ks) =
        k # dedup_first (filter (\<lambda>x. x \<notin> dom (seen(k \<mapsto> True))) ks')"
    proof -
      have "filter (\<lambda>k. k \<notin> dom seen) ks = k # filter (\<lambda>k. k \<notin> dom seen) ks'"
        using False ks by simp
      then show ?thesis
        by (simp only: dedup_first.simps removeAll_filter_dom [where b = True])
    qed
    have "the (tracks_dict k) = t" using t by simp
    then show ?thesis
      unfolding step ih eq by simp
  qed
qed

lemma get_mmw_tracks_loop_keys:
  "get_mmw_tracks_loop tracks_dict songs tracks seen = Inr ts \<Longrightarrow> s \<in> set songs \<Longrightarrow>
   \<exists>k. songid s = Inr k \<and> (k \<in> dom seen \<or> k \<in> dom tracks_dict)"
proof (induction songs arbitrary: tracks seen)
  case Nil
  then show ?case by simp
next
  case (Cons song songs)
  from Cons.prems(1) obtain k where k: "songid song = Inr k"
    by (cases "songid song") auto
  show ?case
  proof (cases "k \<in> dom seen")
    case True
    with Cons k show ?thesis by auto
  next
    case False
    with Cons.prems(1) k obtain t where t: "tracks_dict k = Some t"
      by (cases "tracks_dict k") auto
    with Cons.prems(1) k False
    have run: "get_mmw_tracks_loop tracks_dict songs (tracks @ [t]) (seen(k \<mapsto> True)) = Inr ts"
      by simp
    show ?thesis
    proof (cases "s = song")
      case True
      with k t show ?thesis by auto
    next
      case False
      with Cons.prems(2) have "s \<in> set songs" by simp
      from Cons.IH [OF run this] obtain k' where
        "songid s = Inr k'" "k' \<in> dom (seen(k \<mapsto> True)) \<or> k' \<in> dom tracks_dict" by blast
      with t show ?thesis by (cases "k' = k") auto
    qed
  qed
qed

lemma songs_to_dict_Inr: "songid s = Inr k \<Longrightarrow> songs_to_dict d s = Inr (d(k \<mapsto> s))"
  by (simp add: songs_to_dict_def bind_def)

lemma songs_to_dict_Inl: "songid s = Inl e \<Longrightarrow> songs_to_dict d s = Inl e"
  by (simp add: songs_to_dict_def bind_def)

lemma reduce_songs_to_dict_inv:
  "reduce songs_to_dict songs d = Inr d' \<Longrightarrow>
   (\<forall>k t. d k = Some t \<longrightarrow> songid t = Inr k) \<Longrightarrow> d' k = Some t \<Longrightarrow> songid t = Inr k"
proof (induction songs arbitrary: d)
  case Nil
  then show ?case by simp
next
  case (Cons s songs)
  from Cons.prems(1) obtain k0 where k0: "songid s = Inr k0"
    by (cases "songid s") (auto simp: songs_to_dict_Inl)
  with Cons.prems(1) have run: "reduce songs_to_dict songs (d(k0 \<mapsto> s)) = Inr d'"
    by (simp add: songs_to_dict_Inr)
  from Cons.prems(2) k0 have "\<forall>k t. (d(k0 \<mapsto> s)) k = Some t \<longrightarrow> songid t = Inr k" by auto
  from Cons.IH [OF run this Cons.prems(3)] show ?case .
qed

lemma dedup_first_set: "set (dedup_first xs) = set xs"
  by (induction xs rule: dedup_first.induct) auto

lemma dedup_first_distinct: "distinct (dedup_first xs)"
  by (induction xs rule: dedup_first.induct) (auto simp: dedup_first_set)



lemma get_mmw_tracks_loop_KeyError:
  "\<forall>s\<in>set pre. \<exists>k. songid s = Inr k \<and> k \<in> dom tracks_dict \<Longrightarrow> songid s = Inr k \<Longrightarrow>
   k \<notin> dom tracks_dict \<Longrightarrow> dom seen \<subseteq> dom tracks_dict \<Longrightarrow>
   get_mmw_tracks_loop tracks_dict (pre @ s # post) tracks seen = Inl (KeyError k)"
proof (induction pre arbitrary: tracks seen)
  case Nil
  then have "k \<notin> dom seen" by blast
  with Nil show ?case by (auto split: option.splits)
next
  case (Cons song pre)
  from Cons.prems(1) obtain k0 t where k0: "songid song = Inr k0" and t: "tracks_dict k0 = Some t"
    by auto
  have rest: "\<forall>s\<in>set pre. \<exists>k. songid s = Inr k \<and> k \<in> dom tracks_dict"
    using Cons.prems(1) by simp
  show ?case
  proof (cases "k0 \<in> dom seen")
    case True
    with k0 Cons.IH [OF rest Cons.prems(2,3,4)] show ?thesis by simp
  next
    case False
    from t Cons.prems(4) have "dom (seen(k0 \<mapsto> True)) \<subseteq> dom tracks_dict" by auto
    note ih = Cons.IH [OF rest Cons.prems(2,3) this, of "tracks @ [t]"]
    have "get_mmw_tracks_loop tracks_dict ((song # pre) @ s # post) tracks seen =
        get_mmw_tracks_loop tracks_dict (pre @ s # post) (tracks @ [t]) (seen(k0 \<mapsto> True))"
      using False k0 t by simp
    then show ?thesis unfolding ih .
  qed
qed

lemma songids_ex:
  "\<forall>s\<in>set songs. \<exists>k. songid s = Inr k \<and> P k \<Longrightarrow>
   \<exists>ks. map songid songs = map Inr ks \<and> (\<forall>k\<in>set ks. P k)"
proof (induction songs)
  case Nil
  then show ?case by simp
next
  case (Cons s songs)
  then obtain ks where "map songid songs = map Inr ks" "\<forall>k\<in>set ks. P k" by auto
  moreover from Cons.prems obtain k where "songid s = Inr k" "P k" by auto
  ultimately have "map songid (s # songs) = map Inr (k # ks) \<and> (\<forall>k\<in>set (k # ks). P k)" by simp
  then show ?case by blast
qed

lemma songid_ex_track: "songid (ex_track k) = Inr (PStr k)"
  by (simp add: songid_def getitem_def ex_track_def)

lemma songid_ex_entry: "songid (ex_entry k e) = Inr (PStr k)"
  by (simp add: songid_def getitem_def ex_entry_def)

lemma ex_tracks_dict_of:
  "tracks_dict_of [ex_track ''A'', ex_track ''B''] [ex_track ''C''] = Inr ex_tracks_dict"
  by (simp add: tracks_dict_of_def songs_to_dict_Inr songid_ex_track ex_tracks_dict_def)

lemma ex_get_mmw_tracks:
  "get_mmw_tracks ex_tracks_dict
     [ex_entry ''A'' ''e1'', ex_entry ''B'' ''e2'', ex_entry ''A'' ''e3'', ex_entry ''C'' ''e4''] =
   Inr [ex_track ''A'', ex_track ''B'', ex_track ''C'']"
  by (simp add: get_mmw_tracks_def songid_ex_entry ex_tracks_dict_def)

text \<open>
  Claim C1, as the code has it. \<open>get_mmw_tracks\<close> completes exactly when every entry of
  the track list has an identity key and that key is in the music-manager lookup. An
  entry whose key is not in the lookup is not skipped: at the first such entry (all
  entries before it resolving), \<^verbatim>\<open>tracks_dict[id]\<close> raises \<^verbatim>\<open>KeyError\<close> with that key, and
  the exception leaves \<open>get_mmw_tracks\<close>.
\<close>

theorem get_mmw_tracks_unresolved_raises:
  "((\<exists>ts. get_mmw_tracks tracks_dict songs = Inr ts) \<longleftrightarrow>
      (\<forall>s\<in>set songs. \<exists>k. songid s = Inr k \<and> k \<in> dom tracks_dict)) \<and>
   ((\<forall>s\<in>set pre. \<exists>k. songid s = Inr k \<and> k \<in> dom tracks_dict) \<and>
      songid entry = Inr key \<and> key \<notin> dom tracks_dict \<longrightarrow>
      get_mmw_tracks tracks_dict (pre @ entry # post) = Inl (KeyError key))"
proof (intro conjI iffI impI)
  assume "\<exists>ts. get_mmw_tracks tracks_dict songs = Inr ts"
  then obtain ts where "get_mmw_tracks_loop tracks_dict songs [] Map.empty = Inr ts"
    by (auto simp: get_mmw_tracks_def)
  from get_mmw_tracks_loop_keys [OF this]
  show "\<forall>s\<in>set songs. \<exists>k. songid s = Inr k \<and> k \<in> dom tracks_dict" by simp
next
  assume "\<forall>s\<in>set songs. \<exists>k. songid s = Inr k \<and> k \<in> dom tracks_dict"
  from songids_ex [OF this] obtain ks where
    "map songid songs = map Inr ks" "\<forall>k\<in>set ks. k \<in> dom (Map.empty :: pyval \<rightharpoonup> bool) \<or> k \<in> dom tracks_dict"
    by auto
  from get_mmw_tracks_loop_Inr [OF this]
  show "\<exists>ts. get_mmw_tracks tracks_dict songs = Inr ts"
    unfolding get_mmw_tracks_def by blast
next
  assume "(\<forall>s\<in>set pre. \<exists>k. songid s = Inr k \<and> k \<in> dom tracks_dict) \<and>
      songid entry = Inr key \<and> key \<notin> dom tracks_dict"
  then show "get_mmw_tracks tracks_dict (pre @ entry # post) = Inl (KeyError key)"
    unfolding get_mmw_tracks_def by (intro get_mmw_tracks_loop_KeyError) auto
qed

theorem get_mmw_tracks_unresolved_raises_witness:
  "(\<exists>ts. get_mmw_tracks ex_tracks_dict [ex_entry ''A'' ''e1'', ex_entry ''C'' ''e2''] = Inr ts) \<and>
   get_mmw_tracks ex_tracks_dict ([ex_entry ''A'' ''e1''] @ ex_entry ''D'' ''e2'' # [ex_entry ''B'' ''e3'']) =
     Inl (KeyError (PStr ''D''))"
  using get_mmw_tracks_unresolved_raises
    [of ex_tracks_dict "[ex_entry ''A'' ''e1'', ex_entry ''C'' ''e2'']" "[ex_entry ''A'' ''e1'']"
        "ex_entry ''D'' ''e2''" "PStr ''D''" "[ex_entry ''B'' ''e3'']"]
  by (simp add: songid_ex_entry ex_tracks_dict_def)

text \<open>
  The claim as stated fails: with the lookup holding A, B and C, the playlist entries
  keyed A, D do not resolve to the track of A alone; the run ends in \<^verbatim>\<open>KeyError\<close>.
\<close>

theorem get_mmw_tracks_silent_skip_counterexample:
  "get_mmw_tracks ex_tracks_dict [ex_entry ''A'' ''e1'', ex_entry ''D'' ''e2''] =
     Inl (KeyError (PStr ''D''))"
  by (simp add: get_mmw_tracks_def songid_ex_entry ex_tracks_dict_def)

lemma reduce_songs_to_dict_dom:
  "reduce songs_to_dict songs d = Inr d' \<Longrightarrow>
   dom d' = dom d \<union> {k. \<exists>s\<in>set songs. songid s = Inr k}"
proof (induction songs arbitrary: d)
  case Nil
  then show ?case by simp
next
  case (Cons s songs)
  from Cons.prems obtain k0 where k0: "songid s = Inr k0"
    by (cases "songid s") (auto simp: songs_to_dict_Inl)
  with Cons.prems have run: "reduce songs_to_dict songs (d(k0 \<mapsto> s)) = Inr d'"
    by (simp add: songs_to_dict_Inr)
  have "dom d' = dom (d(k0 \<mapsto> s)) \<union> {k. \<exists>s\<in>set songs. songid s = Inr k}"
    by (rule Cons.IH [OF run])
  also have "dom (d(k0 \<mapsto> s)) = insert k0 (dom d)" by simp
  also have "insert k0 (dom d) \<union> {k. \<exists>s\<in>set songs. songid s = Inr k} =
      dom d \<union> {k. \<exists>x\<in>set (s # songs). songid x = Inr k}"
    using k0 by auto
  finally show ?case .
qed

lemma get_mmw_tracks_loop_cong:
  "map songid songs = map songid songs' \<Longrightarrow>
   get_mmw_tracks_loop tracks_dict songs tracks seen =
   get_mmw_tracks_loop tracks_dict songs' tracks seen"
proof (induction songs arbitrary: songs' tracks seen)
  case Nil
  then show ?case by simp
next
  case (Cons s songs)
  then obtain s' rest where songs': "songs' = s' # rest" and hd: "songid s = songid s'"
    and tl: "map songid songs = map songid rest"
    by (cases songs') auto
  show ?case
    unfolding songs' get_mmw_tracks_loop.simps hd Cons.IH [OF tl] ..
qed

lemma m3u_loop_cong:
  "map songid songs = map songid songs' \<Longrightarrow>
   m3u_loop entry songs_dict songs m3u = m3u_loop entry songs_dict songs' m3u"
proof (induction songs arbitrary: songs' m3u)
  case Nil
  then show ?case by simp
next
  case (Cons s songs)
  then obtain s' rest where songs': "songs' = s' # rest" and hd: "songid s = songid s'"
    and tl: "map songid songs = map songid rest"
    by (cases songs') auto
  show ?case
    unfolding songs' m3u_loop.simps hd Cons.IH [OF tl] ..
qed

lemma songid_identity_key:
  "songid track = (case identity_key track of Some k \<Rightarrow> Inr k | None \<Rightarrow> Inl (KeyError (PStr ''id'')))"
  by (auto simp: songid_def getitem_def identity_key_def split: option.splits)

lemma songid_Inr_iff: "songid track = Inr k \<longleftrightarrow> identity_key track = Some k"
  by (simp add: songid_identity_key split: option.splits)

lemma map_songid_identity_key:
  "map identity_key songs = map Some ks \<Longrightarrow> map songid songs = map Inr ks"
proof (induction songs arbitrary: ks)
  case Nil
  then show ?case by simp
next
  case (Cons s songs)
  then obtain k ks' where "ks = k # ks'" "identity_key s = Some k" "map identity_key songs = map Some ks'"
    by (cases ks) auto
  with Cons.IH show ?case by (simp add: songid_Inr_iff)
qed

lemma m3u_loop_Inr:
  "map songid songs = map Inr ks \<Longrightarrow>
   \<forall>k\<in>set ks. \<exists>song lines. songs_dict k = Some song \<and> entry song = Inr lines \<Longrightarrow>
   m3u_loop entry songs_dict songs m3u =
     Inr (m3u @ concat (map (\<lambda>k. projr (entry (the (songs_dict k)))) ks))"
proof (induction songs arbitrary: ks m3u)
  case Nil
  then show ?case by simp
next
  case (Cons s songs)
  then obtain k ks' where ks: "ks = k # ks'" and k: "songid s = Inr k"
    and rest: "map songid songs = map Inr ks'"
    by (cases ks) auto
  from Cons.prems(2) ks obtain song lines where song: "songs_dict k = Some song"
    and lines: "entry song = Inr lines" by auto
  from Cons.prems(2) ks
  have all: "\<forall>k\<in>set ks'. \<exists>song lines. songs_dict k = Some song \<and> entry song = Inr lines" by simp
  have step: "m3u_loop entry songs_dict (s # songs) m3u =
      m3u_loop entry songs_dict songs (m3u @ lines)"
    using k song lines by simp
  show ?case
    unfolding step Cons.IH [OF rest all] ks using song lines by simp
qed

lemma m3u_loop_KeyError:
  "\<forall>s\<in>set pre. \<exists>k song lines. songid s = Inr k \<and> songs_dict k = Some song \<and> entry song = Inr lines \<Longrightarrow>
   songid track = Inr k \<Longrightarrow> songs_dict k = None \<Longrightarrow>
   m3u_loop entry songs_dict (pre @ track # post) m3u = Inl (KeyError k)"
proof (induction pre arbitrary: m3u)
  case Nil
  then show ?case by simp
next
  case (Cons s pre)
  from Cons.prems(1) obtain k0 song lines where "songid s = Inr k0" "songs_dict k0 = Some song"
    "entry song = Inr lines" by auto
  then have step: "m3u_loop entry songs_dict ((s # pre) @ track # post) m3u =
      m3u_loop entry songs_dict (pre @ track # post) (m3u @ lines)" by simp
  from Cons.prems(1)
  have "\<forall>s\<in>set pre. \<exists>k song lines. songid s = Inr k \<and> songs_dict k = Some song \<and> entry song = Inr lines"
    by simp
  from Cons.IH [OF this Cons.prems(2,3)] show ?case unfolding step .
qed


lemma reduce_songs_to_dict_mem:
  "reduce songs_to_dict songs d = Inr d' \<Longrightarrow> d' k = Some t \<Longrightarrow> d k = Some t \<or> t \<in> set songs"
proof (induction songs arbitrary: d)
  case Nil
  then show ?case by simp
next
  case (Cons s songs)
  from Cons.prems(1) obtain k0 where k0: "songid s = Inr k0"
    by (cases "songid s") (auto simp: songs_to_dict_Inl)
  with Cons.prems(1) have run: "reduce songs_to_dict songs (d(k0 \<mapsto> s)) = Inr d'"
    by (simp add: songs_to_dict_Inr)
  from Cons.IH [OF run Cons.prems(2)] have "(d(k0 \<mapsto> s)) k = Some t \<or> t \<in> set songs" .
  then show ?case by (cases "k = k0") auto
qed

lemma songs_dict_keys:
  assumes "reduce songs_to_dict songs Map.empty = Inr d"
  shows "dom d = {k. \<exists>s\<in>set songs. identity_key s = Some k}"
    and "d k = Some t \<Longrightarrow> identity_key t = Some k \<and> t \<in> set songs"
proof -
  from reduce_songs_to_dict_dom [OF assms]
  show "dom d = {k. \<exists>s\<in>set songs. identity_key s = Some k}"
    by (simp add: songid_Inr_iff)
  assume t: "d k = Some t"
  from reduce_songs_to_dict_inv [OF assms _ t] have "identity_key t = Some k"
    by (simp add: songid_Inr_iff)
  moreover from reduce_songs_to_dict_mem [OF assms t] have "t \<in> set songs" by simp
  ultimately show "identity_key t = Some k \<and> t \<in> set songs" ..
qed

lemma get_mmw_tracks_identity_key:
  assumes "map identity_key songs = map Some ks" and "\<forall>k\<in>set ks. k \<in> dom tracks_dict"
  shows "get_mmw_tracks tracks_dict songs = Inr (map (\<lambda>k. the (tracks_dict k)) (dedup_first ks))"
proof -
  from assms(2) have "\<forall>k\<in>set ks. k \<in> dom (Map.empty :: pyval \<rightharpoonup> bool) \<or> k \<in> dom tracks_dict" by simp
  from get_mmw_tracks_loop_Inr [OF map_songid_identity_key [OF assms(1)] this, of "[]"]
  show ?thesis by (simp add: get_mmw_tracks_def)
qed

lemma create_playlist_file_lines:
  assumes "cli ''dry-run'' = Some dry_run" and "\<not> truthy dry_run"
    and "m3u_loop (m3u_entry w outpath) songs_dict songs [''#EXTM3U''] = Inr m3u"
  shows "create_playlist_file w cli songs_dict (CStr name) songs outpath t =
           (t @ [WritePlaylist (join outpath (name @ ''.m3u'')) m3u], Inr ())"
  using assms
  by (simp add: create_playlist_file_def cli_item_def seq_def lift_def emit_def)

text \<open>
  Claim C10. The identity key of a remote song record is its \<^verbatim>\<open>trackId\<close> when the record
  has that field, and its \<^verbatim>\<open>id\<close> otherwise (\<^verbatim>\<open>KeyError\<close> when it has neither): \<open>songid\<close>
  computes \<open>identity_key\<close>. The precedence is the same wherever a key is derived. Both
  lookups (of the music-manager songs and of the mobile-client songs) hold each song under
  its identity key. \<open>get_mmw_tracks\<close> returns, for entries with identity keys \<open>ks\<close>, the
  songs the lookup holds under \<open>ks\<close> (duplicates dropped). The loop of
  \<open>create_playlist_file\<close> renders, for tracks with identity keys \<open>ks\<close>, the songs the lookup
  holds under \<open>ks\<close>, in order, and these are the lines of the file it writes; a track whose
  identity key is not in the lookup raises \<^verbatim>\<open>KeyError\<close> with that key.
\<close>

theorem songid_precedence:
  "songid track =
     (case track ''trackId'' of
        Some v \<Rightarrow> Inr v
      | None \<Rightarrow> (case track ''id'' of Some v \<Rightarrow> Inr v | None \<Rightarrow> Inl (KeyError (PStr ''id'')))) \<and>
   songid track = (case identity_key track of Some k \<Rightarrow> Inr k | None \<Rightarrow> Inl (KeyError (PStr ''id''))) \<and>
   (tracks_dict_of matched filtered = Inr tracks_dict \<longrightarrow>
      dom tracks_dict = {k. \<exists>s\<in>set (matched @ filtered). identity_key s = Some k} \<and>
      (\<forall>k t. tracks_dict k = Some t \<longrightarrow> identity_key t = Some k \<and> t \<in> set (matched @ filtered))) \<and>
   (reduce songs_to_dict all_songs Map.empty = Inr songs_dict \<longrightarrow>
      dom songs_dict = {k. \<exists>s\<in>set all_songs. identity_key s = Some k} \<and>
      (\<forall>k t. songs_dict k = Some t \<longrightarrow> identity_key t = Some k \<and> t \<in> set all_songs)) \<and>
   (map identity_key songs = map Some ks \<and> (\<forall>k\<in>set ks. k \<in> dom tracks_dict) \<longrightarrow>
      get_mmw_tracks tracks_dict songs = Inr (map (\<lambda>k. the (tracks_dict k)) (dedup_first ks))) \<and>
   (map identity_key songs = map Some ks \<and>
    (\<forall>k\<in>set ks. \<exists>song lines. songs_dict k = Some song \<and> entry song = Inr lines) \<longrightarrow>
      m3u_loop entry songs_dict songs m3u =
        Inr (m3u @ concat (map (\<lambda>k. projr (entry (the (songs_dict k)))) ks))) \<and>
   (map identity_key songs = map Some ks \<and>
    (\<forall>k\<in>set ks. \<exists>song lines. songs_dict k = Some song \<and> m3u_entry w outpath song = Inr lines) \<and>
    cli ''dry-run'' = Some dry_run \<and> \<not> truthy dry_run \<longrightarrow>
      create_playlist_file w cli songs_dict (CStr given) songs outpath t =
        (t @ [WritePlaylist (join outpath (given @ ''.m3u''))
                (''#EXTM3U'' # concat (map (\<lambda>k. projr (m3u_entry w outpath (the (songs_dict k)))) ks))],
         Inr ())) \<and>
   ((\<forall>s\<in>set pre. \<exists>k song lines. identity_key s = Some k \<and> songs_dict k = Some song \<and>
        entry song = Inr lines) \<and>
    identity_key track = Some key \<and> songs_dict key = None \<longrightarrow>
      m3u_loop entry songs_dict (pre @ track # post) m3u = Inl (KeyError key)) \<and>
   (map songid songs = map songid songs' \<longrightarrow>
      get_mmw_tracks tracks_dict songs = get_mmw_tracks tracks_dict songs' \<and>
      m3u_loop entry songs_dict songs m3u = m3u_loop entry songs_dict songs' m3u)"
proof (intro conjI impI allI)
  show "songid track =
     (case track ''trackId'' of
        Some v \<Rightarrow> Inr v
      | None \<Rightarrow> (case track ''id'' of Some v \<Rightarrow> Inr v | None \<Rightarrow> Inl (KeyError (PStr ''id''))))"
    by (rule songid_cases)
  show "songid track = (case identity_key track of Some k \<Rightarrow> Inr k | None \<Rightarrow> Inl (KeyError (PStr ''id'')))"
    by (rule songid_identity_key)
next
  assume "tracks_dict_of matched filtered = Inr tracks_dict"
  then have red: "reduce songs_to_dict (matched @ filtered) Map.empty = Inr tracks_dict"
    by (simp add: tracks_dict_of_def)
  from songs_dict_keys(1) [OF red]
  show "dom tracks_dict = {k. \<exists>s\<in>set (matched @ filtered). identity_key s = Some k}" .
  fix k t
  assume "tracks_dict k = Some t"
  from songs_dict_keys(2) [OF red this]
  show "identity_key t = Some k" and "t \<in> set (matched @ filtered)" by blast+
next
  assume red: "reduce songs_to_dict all_songs Map.empty = Inr songs_dict"
  from songs_dict_keys(1) [OF red]
  show "dom songs_dict = {k. \<exists>s\<in>set all_songs. identity_key s = Some k}" .
  fix k t
  assume "songs_dict k = Some t"
  from songs_dict_keys(2) [OF red this]
  show "identity_key t = Some k" and "t \<in> set all_songs" by blast+
next
  assume "map identity_key songs = map Some ks \<and> (\<forall>k\<in>set ks. k \<in> dom tracks_dict)"
  then show "get_mmw_tracks tracks_dict songs = Inr (map (\<lambda>k. the (tracks_dict k)) (dedup_first ks))"
    by (intro get_mmw_tracks_identity_key) blast+
next
  assume "map identity_key songs = map Some ks \<and>
    (\<forall>k\<in>set ks. \<exists>song lines. songs_dict k = Some song \<and> entry song = Inr lines)"
  then show "m3u_loop entry songs_dict songs m3u =
        Inr (m3u @ concat (map (\<lambda>k. projr (entry (the (songs_dict k)))) ks))"
    by (intro m3u_loop_Inr map_songid_identity_key) blast+
next
  assume a: "map identity_key songs = map Some ks \<and>
    (\<forall>k\<in>set ks. \<exists>song lines. songs_dict k = Some song \<and> m3u_entry w outpath song = Inr lines) \<and>
    cli ''dry-run'' = Some dry_run \<and> \<not> truthy dry_run"
  then have "m3u_loop (m3u_entry w outpath) songs_dict songs [''#EXTM3U''] =
      Inr ([''#EXTM3U''] @ concat (map (\<lambda>k. projr (m3u_entry w outpath (the (songs_dict k)))) ks))"
    by (intro m3u_loop_Inr map_songid_identity_key) blast+
  then have "m3u_loop (m3u_entry w outpath) songs_dict songs [''#EXTM3U''] =
      Inr (''#EXTM3U'' # concat (map (\<lambda>k. projr (m3u_entry w outpath (the (songs_dict k)))) ks))"
    by simp
  with a show "create_playlist_file w cli songs_dict (CStr given) songs outpath t =
        (t @ [WritePlaylist (join outpath (given @ ''.m3u''))
                (''#EXTM3U'' # concat (map (\<lambda>k. projr (m3u_entry w outpath (the (songs_dict k)))) ks))],
         Inr ())"
    by (intro create_playlist_file_lines) blast+
next
  assume a: "(\<forall>s\<in>set pre. \<exists>k song lines. identity_key s = Some k \<and> songs_dict k = Some song \<and>
        entry song = Inr lines) \<and>
    identity_key track = Some key \<and> songs_dict key = None"
  then have "\<forall>s\<in>set pre. \<exists>k song lines. songid s = Inr k \<and> songs_dict k = Some song \<and>
        entry song = Inr lines"
    by (simp add: songid_Inr_iff)
  moreover from a have "songid track = Inr key" by (simp add: songid_Inr_iff)
  moreover from a have "songs_dict key = None" by simp
  ultimately show "m3u_loop entry songs_dict (pre @ track # post) m3u = Inl (KeyError key)"
    by (rule m3u_loop_KeyError)
next
  assume "map songid songs = map songid songs'"
  then show "get_mmw_tracks tracks_dict songs = get_mmw_tracks tracks_dict songs'"
    unfolding get_mmw_tracks_def by (rule get_mmw_tracks_loop_cong)
next
  assume "map songid songs = map songid songs'"
  then show "m3u_loop entry songs_dict songs m3u = m3u_loop entry songs_dict songs' m3u"
    by (rule m3u_loop_cong)
qed

lemma ex_identity_keys:
  "map identity_key [ex_entry ''T1'' ''e1'', ex_track ''e1''] = map Some [PStr ''T1'', PStr ''e1'']"
  by (simp add: identity_key_def ex_entry_def ex_track_def)

lemma ex_songs_dict_dom: "\<forall>k\<in>set [PStr ''T1'', PStr ''e1'']. k \<in> dom ex_songs_dict"
  by (simp add: ex_songs_dict_def)

lemma ex_songs_dict_entries:
  "\<forall>k\<in>set [PStr ''T1'', PStr ''e1''].
     \<exists>song lines. ex_songs_dict k = Some song \<and> ex_m3u_entry song = Inr lines"
  by (simp add: ex_songs_dict_def ex_m3u_entry_def ex_titled_def)

theorem songid_precedence_witness:
  "get_mmw_tracks ex_songs_dict [ex_entry ''T1'' ''e1'', ex_track ''e1''] =
     Inr [ex_titled ''T1'' ''X'', ex_titled ''e1'' ''Y''] \<and>
   m3u_loop ex_m3u_entry ex_songs_dict [ex_entry ''T1'' ''e1'', ex_track ''e1''] [''#EXTM3U''] =
     Inr [''#EXTM3U'', ''X'', ''Y'']"
proof -
  note inst = songid_precedence [where songs = "[ex_entry ''T1'' ''e1'', ex_track ''e1'']"
      and ks = "[PStr ''T1'', PStr ''e1'']" and tracks_dict = ex_songs_dict
      and songs_dict = ex_songs_dict and entry = ex_m3u_entry and m3u = "[''#EXTM3U'']"]
  note tracks = inst [THEN conjunct2, THEN conjunct2, THEN conjunct2, THEN conjunct2, THEN conjunct1,
      THEN mp, OF conjI [OF ex_identity_keys ex_songs_dict_dom]]
  note lines = inst [THEN conjunct2, THEN conjunct2, THEN conjunct2, THEN conjunct2, THEN conjunct2,
      THEN conjunct1, THEN mp, OF conjI [OF ex_identity_keys ex_songs_dict_entries]]
  show ?thesis
    unfolding tracks lines
    by (simp add: ex_songs_dict_def ex_m3u_entry_def ex_titled_def)
qed

text \<open>
  Claim C5. When \<open>get_mmw_tracks\<close> returns, with the lookup built from the matched and
  filtered google songs, the tracks returned are those of the entries' keys with
  duplicates removed, the first occurrence of each key kept, in input order: the keys of
  the output are \<open>dedup_first\<close> of the keys of the input. Entries keyed A, B, A, C give
  tracks keyed A, B, C.
\<close>

theorem get_mmw_tracks_dedup:
  assumes "tracks_dict_of matched filtered = Inr tracks_dict"
    and "get_mmw_tracks tracks_dict songs = Inr tracks"
  shows "\<exists>ks. map songid songs = map Inr ks \<and>
           tracks = map (\<lambda>k. the (tracks_dict k)) (dedup_first ks) \<and>
           map songid tracks = map Inr (dedup_first ks) \<and>
           distinct (dedup_first ks) \<and> set (dedup_first ks) = set ks"
proof -
  from assms(2) have run: "get_mmw_tracks_loop tracks_dict songs [] Map.empty = Inr tracks"
    by (simp add: get_mmw_tracks_def)
  from get_mmw_tracks_loop_keys [OF run]
  have "\<forall>s\<in>set songs. \<exists>k. songid s = Inr k \<and> k \<in> dom tracks_dict" by simp
  from songids_ex [OF this] obtain ks where ks: "map songid songs = map Inr ks"
    and dom: "\<forall>k\<in>set ks. k \<in> dom tracks_dict" by blast
  then have "\<forall>k\<in>set ks. k \<in> dom (Map.empty :: pyval \<rightharpoonup> bool) \<or> k \<in> dom tracks_dict" by simp
  from get_mmw_tracks_loop_Inr [OF ks this, of "[]"] run
  have tracks: "tracks = map (\<lambda>k. the (tracks_dict k)) (dedup_first ks)" by simp
  from assms(1) have red: "reduce songs_to_dict (matched @ filtered) Map.empty = Inr tracks_dict"
    by (simp add: tracks_dict_of_def)
  have "songid (the (tracks_dict k)) = Inr k" if "k \<in> set (dedup_first ks)" for k
  proof -
    from that dom obtain t where t: "tracks_dict k = Some t" by (auto simp: dedup_first_set)
    from reduce_songs_to_dict_inv [OF red _ t] t show ?thesis by simp
  qed
  then have "map songid tracks = map Inr (dedup_first ks)"
    unfolding tracks by (simp add: comp_def)
  with ks tracks show ?thesis
    by (auto simp: dedup_first_distinct dedup_first_set)
qed


theorem get_mmw_tracks_dedup_witness:
  "get_mmw_tracks ex_tracks_dict
     [ex_entry ''A'' ''e1'', ex_entry ''B'' ''e2'', ex_entry ''A'' ''e3'', ex_entry ''C'' ''e4''] =
     Inr [ex_track ''A'', ex_track ''B'', ex_track ''C''] \<and>
   map songid [ex_track ''A'', ex_track ''B'', ex_track ''C''] =
     map Inr (dedup_first [PStr ''A'', PStr ''B'', PStr ''A'', PStr ''C'']) \<and>
   dedup_first [PStr ''A'', PStr ''B'', PStr ''A'', PStr ''C''] = [PStr ''A'', PStr ''B'', PStr ''C'']"
proof -
  from get_mmw_tracks_dedup [OF ex_tracks_dict_of ex_get_mmw_tracks]
  obtain ks where ks: "map songid
       [ex_entry ''A'' ''e1'', ex_entry ''B'' ''e2'', ex_entry ''A'' ''e3'', ex_entry ''C'' ''e4''] =
       map Inr ks"
    and out: "map songid [ex_track ''A'', ex_track ''B'', ex_track ''C''] = map Inr (dedup_first ks)"
    by blast
  from ks have "ks = [PStr ''A'', PStr ''B'', PStr ''A'', PStr ''C'']"
    by (auto simp: songid_ex_entry)
  with out ex_get_mmw_tracks show ?thesis by simp
qed

section \<open>Properties of the favorites derivation\<close>

lemma bind_Inr_iff: "bind r f = Inr y \<longleftrightarrow> (\<exists>v. r = Inr v \<and> f v = Inr y)"
  by (cases r) (simp_all add: bind_def)

lemma rating_filter_Inr:
  "rating_filter xs = Inr ys \<Longrightarrow>
   ys = filter rated_above_3 xs \<and> (\<forall>t\<in>set xs. \<exists>n. rating_of t = Inr n)"
proof (induction xs arbitrary: ys)
  case Nil
  then show ?case by simp
next
  case (Cons t ts)
  from Cons.prems obtain n rest where n: "rating_of t = Inr n" and rest: "rating_filter ts = Inr rest"
    and ys: "ys = (if n > 3 then t # rest else rest)"
    by (auto simp: bind_Inr_iff)
  from Cons.IH [OF rest] n ys show ?case by (auto simp: rated_above_3_def)
qed

lemma rating_filter_total:
  "\<forall>t\<in>set xs. \<exists>n. rating_of t = Inr n \<Longrightarrow> \<exists>ys. rating_filter xs = Inr ys"
proof (induction xs)
  case Nil
  then show ?case by simp
next
  case (Cons t ts)
  then obtain n rest where "rating_of t = Inr n" "rating_filter ts = Inr rest" by auto
  then show ?case by (simp add: bind_def)
qed

lemma map_result_Inr:
  "map_result f xs = Inr ys \<longleftrightarrow> map f xs = map Inr ys"
proof (induction xs arbitrary: ys)
  case Nil
  then show ?case by auto
next
  case (Cons x xs)
  show ?case
  proof (cases "f x")
    case (Inl e)
    then show ?thesis by (cases ys) (auto simp: bind_def)
  next
    case (Inr y)
    show ?thesis
    proof (cases "map_result f xs")
      case (Inl e)
      with Cons.IH have "\<And>zs. map f xs \<noteq> map Inr zs" by (metis sum.distinct(1))
      with Inl Inr show ?thesis by (cases ys) (auto simp: bind_def)
    next
      case r: (Inr zs)
      with Cons.IH have "map f xs = map Inr zs" by blast
      with r Inr show ?thesis by (cases ys) (auto simp: bind_def inj_Inr [THEN inj_map_eq_map])
    qed
  qed
qed

lemma insort_key_decorate:
  "insort_key fst (k x, x) (map (\<lambda>x. (k x, x)) ys) = map (\<lambda>x. (k x, x)) (insort_key k x ys)"
  by (induction ys) auto

lemma sort_key_decorate:
  "sort_key fst (zip (map k xs) xs) = map (\<lambda>x. (k x, x)) (sort_key k xs)"
  by (induction xs) (auto simp: insort_key_decorate)

lemma map_eq_map_Inr:
  "map f xs = map Inr ks \<Longrightarrow> ks = map (\<lambda>x. projr (f x)) xs \<and> (\<forall>x\<in>set xs. f x = Inr (projr (f x)))"
proof (induction xs arbitrary: ks)
  case Nil
  then show ?case by simp
next
  case (Cons x xs)
  then obtain k ks' where ks: "ks = k # ks'" and k: "f x = Inr k" and rest: "map f xs = map Inr ks'"
    by (cases ks) auto
  from Cons.IH [OF rest] ks k show ?case by simp
qed

lemma list_sort_key_Inr:
  assumes "list_sort_key key xs = Inr ys"
  shows "\<exists>k. (\<forall>x\<in>set xs. key x = Inr (k x)) \<and> ys = sort_key k xs"
proof -
  from assms obtain ks where ks: "map_result key xs = Inr ks"
    and ys: "ys = map snd (sort_key fst (zip ks xs))"
    unfolding list_sort_key_def bind_Inr_iff by blast
  from ks have m: "map key xs = map Inr ks" by (simp only: map_result_Inr)
  define k where "k = (\<lambda>x. projr (key x))"
  from map_eq_map_Inr [OF m] have ks_eq: "ks = map k xs" and kx: "\<forall>x\<in>set xs. key x = Inr (k x)"
    unfolding k_def by blast+
  have "map snd (map (\<lambda>x. (k x, x)) (sort_key k xs)) = sort_key k xs"
    by (simp add: comp_def)
  with ys have "ys = sort_key k xs" unfolding ks_eq sort_key_decorate by simp
  with kx show ?thesis by blast
qed

lemma list_sort_key_total:
  "\<forall>x\<in>set xs. \<exists>n. key x = Inr n \<Longrightarrow> \<exists>ys. list_sort_key key xs = Inr ys"
proof -
  assume a: "\<forall>x\<in>set xs. \<exists>n. key x = Inr n"
  have "map key xs = map Inr (map (\<lambda>x. projr (key x)) xs)"
    using a by (induction xs) auto
  then have "map_result key xs = Inr (map (\<lambda>x. projr (key x)) xs)" by (simp only: map_result_Inr)
  then show ?thesis by (simp add: list_sort_key_def bind_def)
qed

text \<open>
  Claim C6. When the favorites derivation returns, it holds exactly the mobile-client
  songs whose rating is strictly greater than 3 (each as often as it occurs), ordered by
  \<^verbatim>\<open>lastModifiedTimestamp\<close> descending, songs with equal timestamps in their order in
  \<open>all_songs\<close>. It returns whenever every song has a rating \<^verbatim>\<open>int\<close> accepts and every selected
  song a timestamp \<^verbatim>\<open>int\<close> accepts. Timestamps 100, 300, 200 give the order 300, 200, 100.
\<close>

theorem thumbs_up_selection_and_order:
  "(thumbs_up_of all_songs = Inr favs \<longrightarrow>
      mset favs = mset (filter rated_above_3 all_songs) \<and>
      sorted_wrt (\<lambda>a b. \<exists>x y. last_modified_of a = Inr x \<and> last_modified_of b = Inr y \<and> y \<le> x) favs \<and>
      (\<forall>n. filter (\<lambda>t. last_modified_of t = Inr n) favs =
           filter (\<lambda>t. last_modified_of t = Inr n) (filter rated_above_3 all_songs))) \<and>
   ((\<forall>t\<in>set all_songs. \<exists>n. rating_of t = Inr n) \<and>
    (\<forall>t\<in>set all_songs. rated_above_3 t \<longrightarrow> (\<exists>n. last_modified_of t = Inr n)) \<longrightarrow>
      (\<exists>favs. thumbs_up_of all_songs = Inr favs))"
proof (intro conjI impI)
  assume run: "thumbs_up_of all_songs = Inr favs"
  then obtain sel where sel: "rating_filter all_songs = Inr sel"
    and srt: "list_sort_key favorites_key sel = Inr favs"
    by (auto simp: thumbs_up_of_def bind_Inr_iff)
  from rating_filter_Inr [OF sel] have sel_eq: "sel = filter rated_above_3 all_songs" by simp
  from list_sort_key_Inr [OF srt] obtain k where k: "\<forall>x\<in>set sel. favorites_key x = Inr (k x)"
    and favs: "favs = sort_key k sel" by blast
  have lm: "last_modified_of x = Inr (- k x)" if "x \<in> set sel" for x
    using k that by (auto simp: favorites_key_def bind_Inr_iff)
  show "mset favs = mset (filter rated_above_3 all_songs)"
    by (simp add: favs sel_eq)
  have "sorted (map k favs)" by (simp add: favs)
  then have "sorted_wrt (\<lambda>a b. k a \<le> k b) favs" by (simp add: sorted_map)
  moreover have "set favs = set sel" by (simp add: favs)
  ultimately show "sorted_wrt (\<lambda>a b. \<exists>x y. last_modified_of a = Inr x \<and> last_modified_of b = Inr y \<and> y \<le> x) favs"
    by (rule_tac sorted_wrt_mono_rel [where P = "\<lambda>a b. k a \<le> k b"]) (auto simp: lm)
  show "\<forall>n. filter (\<lambda>t. last_modified_of t = Inr n) favs =
           filter (\<lambda>t. last_modified_of t = Inr n) (filter rated_above_3 all_songs)"
  proof
    fix n
    have "filter (\<lambda>t. last_modified_of t = Inr n) favs = filter (\<lambda>t. k t = - n) favs"
      by (rule filter_cong [OF refl]) (auto simp: \<open>set favs = set sel\<close> lm)
    also have "\<dots> = filter (\<lambda>t. k t = - n) sel" by (simp add: favs sort_key_stable)
    also have "\<dots> = filter (\<lambda>t. last_modified_of t = Inr n) sel"
      by (rule filter_cong [OF refl]) (auto simp: lm)
    finally show "filter (\<lambda>t. last_modified_of t = Inr n) favs =
        filter (\<lambda>t. last_modified_of t = Inr n) (filter rated_above_3 all_songs)"
      by (simp only: sel_eq)
  qed
next
  assume a: "(\<forall>t\<in>set all_songs. \<exists>n. rating_of t = Inr n) \<and>
    (\<forall>t\<in>set all_songs. rated_above_3 t \<longrightarrow> (\<exists>n. last_modified_of t = Inr n))"
  then obtain sel where sel: "rating_filter all_songs = Inr sel"
    using rating_filter_total by blast
  from rating_filter_Inr [OF sel] have "sel = filter rated_above_3 all_songs" by simp
  with a have "\<forall>x\<in>set sel. \<exists>n. favorites_key x = Inr n"
    by (auto simp: favorites_key_def bind_def)
  from list_sort_key_total [OF this] sel show "\<exists>favs. thumbs_up_of all_songs = Inr favs"
    by (auto simp: thumbs_up_of_def bind_def)
qed

lemma ex_thumbs_up:
  "thumbs_up_of ex_all_songs =
     Inr [ex_song ''b'' ''4'' ''300'', ex_song ''c'' ''5'' ''200'', ex_song ''a'' ''5'' ''100'']"
  by (simp add: ex_all_songs_def thumbs_up_of_def rating_of_def getitem_def bind_def ex_song_def
      py_int_def int_of_str_def strip_def is_space_def digit_val_def Let_def list_sort_key_def
      favorites_key_def last_modified_of_def dict_get_def)

lemma ex_last_modified:
  "last_modified_of (ex_song ''a'' ''5'' ''100'') = Inr 100"
  "last_modified_of (ex_song ''b'' ''4'' ''300'') = Inr 300"
  "last_modified_of (ex_song ''c'' ''5'' ''200'') = Inr 200"
  by (simp_all add: last_modified_of_def dict_get_def ex_song_def py_int_def int_of_str_def
      strip_def is_space_def digit_val_def Let_def)

theorem thumbs_up_selection_and_order_witness:
  "thumbs_up_of ex_all_songs =
     Inr [ex_song ''b'' ''4'' ''300'', ex_song ''c'' ''5'' ''200'', ex_song ''a'' ''5'' ''100''] \<and>
   map last_modified_of [ex_song ''b'' ''4'' ''300'', ex_song ''c'' ''5'' ''200'', ex_song ''a'' ''5'' ''100''] =
     [Inr 300, Inr 200, Inr 100] \<and>
   mset [ex_song ''b'' ''4'' ''300'', ex_song ''c'' ''5'' ''200'', ex_song ''a'' ''5'' ''100''] =
     mset (filter rated_above_3 ex_all_songs)"
proof -
  note sel = thumbs_up_selection_and_order [THEN conjunct1, THEN mp, OF ex_thumbs_up, THEN conjunct1]
  show ?thesis
    by (intro conjI) (rule ex_thumbs_up, simp add: ex_last_modified, rule sel)
qed

section \<open>Properties of the comparator's callers\<close>

lemma pyval_code_inj: "pyval_code a = pyval_code b \<longleftrightarrow> a = b"
  by (cases a; cases b) (simp_all add: pyval_code_def)

lemma py_lt_code: "py_lt a b = Inr r \<Longrightarrow> r = (pyval_code a < pyval_code b)"
  by (cases a; cases b) (auto simp: pyval_code_def)

lemma tuple_lt_code: "tuple_lt a b = Inr r \<Longrightarrow> r = (map pyval_code a < map pyval_code b)"
proof (induction a b rule: tuple_lt.induct)
  case (4 a as b bs)
  show ?case
  proof (cases "a = b")
    case True
    with 4 show ?thesis by simp
  next
    case False
    with "4.prems" have "py_lt a b = Inr r" by simp
    from py_lt_code [OF this] False show ?thesis by (simp add: pyval_code_inj)
  qed
qed simp_all

text \<open>
  Claim C7. The songs to move are \<open>compare_song_collections\<close> of the three local buckets
  joined (matched, filtered, excluded) against the matched and filtered google songs
  joined: a local song is in the result exactly when it is in one of the three buckets
  and its identity key is the key of no song of the two google lists.
\<close>

theorem songs_to_move_is_missing:
  "songs_to_move lkey gkey (matched_local, filtered_local, excluded_local)
       matched_google filtered_google =
     compare_song_collections lkey gkey
       (matched_local @ filtered_local @ excluded_local) (matched_google @ filtered_google) \<and>
   (song \<in> set (songs_to_move lkey gkey (matched_local, filtered_local, excluded_local)
         matched_google filtered_google) \<longleftrightarrow>
      song \<in> set matched_local \<union> set filtered_local \<union> set excluded_local \<and>
      lkey song \<notin> gkey ` (set matched_google \<union> set filtered_google))"
  by (auto simp: songs_to_move_def compare_song_collections_def)

lemma sort_tuple_key_Inr:
  assumes "sort_tuple_key key xs = Inr ys"
  shows "mset ys = mset xs"
    and "sorted_wrt (\<lambda>a b. tuple_lt (key b) (key a) = Inr False) ys"
    and "filter (\<lambda>x. key x = k) ys = filter (\<lambda>x. key x = k) xs"
proof -
  from assms have cmp: "\<forall>x\<in>set xs. \<forall>y\<in>set xs. comparable (key x) (key y)"
    and ys: "ys = sort_key (\<lambda>x. map pyval_code (key x)) xs"
    by (auto simp: sort_tuple_key_def split: if_splits)
  show "mset ys = mset xs" by (simp add: ys)
  have set: "set ys = set xs" by (simp add: ys)
  have "sorted (map (\<lambda>x. map pyval_code (key x)) ys)" by (simp add: ys)
  then have srt: "sorted_wrt (\<lambda>a b. map pyval_code (key a) \<le> map pyval_code (key b)) ys"
    by (simp add: sorted_map)
  have step: "tuple_lt (key b) (key a) = Inr False"
    if "a \<in> set ys" "b \<in> set ys" "map pyval_code (key a) \<le> map pyval_code (key b)" for a b
  proof -
    from that(1,2) cmp set obtain r where r: "tuple_lt (key b) (key a) = Inr r"
      by (fastforce simp: comparable_def split: sum.splits)
    from tuple_lt_code [OF r] that(3) have "\<not> r" by simp
    with r show ?thesis by simp
  qed
  show "sorted_wrt (\<lambda>a b. tuple_lt (key b) (key a) = Inr False) ys"
    by (rule sorted_wrt_mono_rel [OF _ srt]) (rule step)
  have inj: "inj (map pyval_code)"
    by (rule inj_mapI) (simp add: inj_on_def pyval_code_inj)
  have "filter (\<lambda>x. map pyval_code (key x) = map pyval_code k) ys =
      filter (\<lambda>x. map pyval_code (key x) = map pyval_code k) xs"
    unfolding ys by (rule sort_key_stable)
  then show "filter (\<lambda>x. key x = k) ys = filter (\<lambda>x. key x = k) xs"
    by (simp add: inj_eq [OF inj])
qed

lemma ex_download_key: "download_key (ex_mm_song k artist album n) = [PStr artist, PStr album, PInt n]"
  by (simp add: download_key_def ex_mm_song_def dict_get_def)

lemma ex_upload_sorted:
  "songs_to_upload_sorted ex_tags download_key [''b/a.mp3'', ''a/z.mp3''] [] = [''a/z.mp3'', ''b/a.mp3'']"
  by (simp add: songs_to_upload_sorted_def compare_song_collections_def)

text \<open>
  The claim as stated fails for uploads: \<open>a/z.mp3\<close> is sorted before \<open>b/a.mp3\<close> although its
  key (artist, album, track number) is the greater one.
\<close>

theorem upload_sort_key_counterexample:
  "songs_to_upload_sorted ex_tags download_key [''b/a.mp3'', ''a/z.mp3''] [] = [''a/z.mp3'', ''b/a.mp3''] \<and>
   tuple_lt (ex_tags ''b/a.mp3'') (ex_tags ''a/z.mp3'') = Inr True"
  by (simp add: ex_upload_sorted ex_tags_def)

section \<open>Properties of the base path\<close>

lemma list_min_Min: "m \<noteq> [] \<Longrightarrow> list_min m = Min (set m)"
proof (cases m)
  case Nil
  assume "m \<noteq> []"
  with Nil show ?thesis by simp
next
  case (Cons x xs)
  show ?thesis unfolding Cons list_min_def list.sel by (rule Min.set_eq_fold [symmetric])
qed

lemma list_max_Max: "m \<noteq> [] \<Longrightarrow> list_max m = Max (set m)"
proof (cases m)
  case Nil
  assume "m \<noteq> []"
  with Nil show ?thesis by simp
next
  case (Cons x xs)
  show ?thesis unfolding Cons list_max_def list.sel by (rule Max.set_eq_fold [symmetric])
qed

lemma prefix_between:
  fixes a b c :: "'a::linorder list"
  shows "prefix p a \<Longrightarrow> prefix p c \<Longrightarrow> a \<le> b \<Longrightarrow> b \<le> c \<Longrightarrow> prefix p b"
proof (induction p arbitrary: a b c)
  case Nil
  then show ?case by simp
next
  case (Cons x p)
  from Cons.prems(1) obtain a' where a: "a = x # a'" and pa: "prefix p a'"
    by (cases a) simp_all
  from Cons.prems(2) obtain c' where c: "c = x # c'" and pc: "prefix p c'"
    by (cases c) simp_all
  from Cons.prems(3) a obtain y b' where b: "b = y # b'"
    by (cases b) simp_all
  from Cons.prems(3) have 1: "x < y \<or> x = y \<and> a' \<le> b'"
    unfolding a b by (simp only: Cons_le_Cons)
  from Cons.prems(4) have 2: "y < x \<or> y = x \<and> b' \<le> c'"
    unfolding b c by (simp only: Cons_le_Cons)
  from 1 2 have yx: "y = x" by (metis less_asym)
  with 1 2 have le: "a' \<le> b'" "b' \<le> c'" by simp_all
  from Cons.IH [OF pa pc le] show ?case unfolding b yx by simp
qed

lemma commonprefix_scan_le:
  "s1 \<le> s2 \<Longrightarrow> commonprefix_scan s1 s2 = Inr (longest_common_prefix s1 s2)"
  by (induction s1 s2 rule: commonprefix_scan.induct) (auto simp: bind_def)

lemma commonprefix_Inr:
  assumes "m \<noteq> []"
  shows "\<exists>P. commonprefix m = Inr P \<and> (\<forall>x\<in>set m. prefix P x) \<and>
           (\<forall>q. (\<forall>x\<in>set m. prefix q x) \<longrightarrow> prefix q P)"
proof -
  let ?lo = "Min (set m)" and ?hi = "Max (set m)"
  let ?P = "longest_common_prefix ?lo ?hi"
  from assms have lo: "?lo \<in> set m" and hi: "?hi \<in> set m" by simp_all
  have le: "?lo \<le> ?hi" using hi by (intro Min_le) simp_all
  have run: "commonprefix m = Inr ?P"
    using assms by (simp add: commonprefix_def list_min_Min list_max_Max commonprefix_scan_le [OF le])
  have all: "prefix ?P x" if "x \<in> set m" for x
  proof (rule prefix_between)
    show "prefix ?P ?lo" by (rule longest_common_prefix_prefix1)
    show "prefix ?P ?hi" by (rule longest_common_prefix_prefix2)
    show "?lo \<le> x" using that by simp
    show "x \<le> ?hi" using that by simp
  qed
  have longest: "prefix q ?P" if "\<forall>x\<in>set m. prefix q x" for q
    using that lo hi by (intro longest_common_prefix_max_prefix) blast+
  from run all longest show ?thesis by blast
qed


lemma take_rfind:
  "take (nat (rfind p c + 1)) p = rev (dropWhile (\<lambda>x. x \<noteq> c) (rev p))"
proof (cases "c \<in> set p")
  case True
  let ?n = "length (takeWhile (\<lambda>x. x \<noteq> c) (rev p))"
  have "?n \<le> length p" using length_takeWhile_le [of "\<lambda>x. x \<noteq> c" "rev p"] by simp
  then have "nat (rfind p c + 1) = length p - ?n"
    using True by (simp add: rfind_def)
  moreover have "rev (dropWhile (\<lambda>x. x \<noteq> c) (rev p)) = take (length p - ?n) p"
    by (simp only: dropWhile_eq_drop rev_drop rev_rev_ident length_rev)
  ultimately show ?thesis by simp
next
  case False
  then have "dropWhile (\<lambda>x. x \<noteq> c) (rev p) = []" by (auto simp: dropWhile_eq_Nil_conv)
  with False show ?thesis by (simp add: rfind_def)
qed

lemma dirname_head:
  "dirname p =
     (if path_head p \<noteq> [] \<and> path_head p \<noteq> replicate (length (path_head p)) CHR ''/''
      then rstrip CHR ''/'' (path_head p) else path_head p)"
  unfolding dirname_def Let_def take_rfind path_head_def ..

lemma rstrip_decomp: "\<exists>n. s = rstrip c s @ replicate n c"
proof -
  let ?t = "takeWhile (\<lambda>x. x = c) (rev s)"
  have "rev s = ?t @ dropWhile (\<lambda>x. x = c) (rev s)" by simp
  then have eq: "s = rev (dropWhile (\<lambda>x. x = c) (rev s)) @ rev ?t"
    by (metis rev_append rev_rev_ident)
  have "?t = replicate (length ?t) c"
    by (intro replicate_length_same [symmetric]) (auto dest: set_takeWhileD)
  then have t: "rev ?t = replicate (length ?t) c" by (metis rev_replicate)
  from eq have "s = rstrip c s @ rev ?t" by (simp only: rstrip_def)
  then have "s = rstrip c s @ replicate (length ?t) c" by (simp only: t)
  then show ?thesis ..
qed

lemma rstrip_last: "rstrip c s = [] \<or> last (rstrip c s) \<noteq> c"
proof (cases "dropWhile (\<lambda>x. x = c) (rev s)")
  case Nil
  then show ?thesis by (simp add: rstrip_def)
next
  case (Cons y ys)
  from hd_dropWhile [of "\<lambda>x. x = c" "rev s"] Cons have "y \<noteq> c" by simp
  with Cons show ?thesis by (simp add: rstrip_def)
qed

lemma path_head_prefix: "prefix (path_head p) p"
proof -
  have "p = rev (dropWhile (\<lambda>x. x \<noteq> CHR ''/'') (rev p)) @ rev (takeWhile (\<lambda>x. x \<noteq> CHR ''/'') (rev p))"
    by (metis rev_append rev_rev_ident takeWhile_dropWhile_id)
  then show ?thesis unfolding path_head_def by (metis prefixI)
qed

lemma path_head_last: "path_head p = [] \<or> last (path_head p) = CHR ''/''"
proof (cases "dropWhile (\<lambda>x. x \<noteq> CHR ''/'') (rev p)")
  case Nil
  then show ?thesis by (simp add: path_head_def)
next
  case (Cons y ys)
  from hd_dropWhile [of "\<lambda>x. x \<noteq> CHR ''/''" "rev p"] Cons have "y = CHR ''/''" by simp
  with Cons show ?thesis by (simp add: path_head_def)
qed

lemma prefix_path_head:
  assumes "prefix (y @ [CHR ''/'']) p"
  shows "prefix (y @ [CHR ''/'']) (path_head p)"
proof -
  from assms obtain r where p: "p = (y @ [CHR ''/'']) @ r" by (auto simp: prefix_def)
  have "rev p = rev r @ CHR ''/'' # rev y" by (simp add: p)
  then have "dropWhile (\<lambda>x. x \<noteq> CHR ''/'') (rev p) =
      (if \<forall>x\<in>set (rev r). x \<noteq> CHR ''/'' then CHR ''/'' # rev y
       else dropWhile (\<lambda>x. x \<noteq> CHR ''/'') (rev r) @ CHR ''/'' # rev y)"
    by (simp add: dropWhile_append)
  then have "path_head p = (y @ [CHR ''/'']) @
      (if \<forall>x\<in>set (rev r). x \<noteq> CHR ''/'' then [] else rev (dropWhile (\<lambda>x. x \<noteq> CHR ''/'') (rev r)))"
    by (simp add: path_head_def)
  then show ?thesis by (metis prefixI)
qed

lemma prefix_replicate_strip:
  "prefix d (b @ replicate n c) \<Longrightarrow> d = [] \<or> last d \<noteq> c \<Longrightarrow> prefix d b"
proof (induction n)
  case 0
  then show ?case by simp
next
  case (Suc n)
  have "b @ replicate (Suc n) c = (b @ replicate n c) @ [c]"
    by (simp add: replicate_append_same)
  with Suc.prems(1) have "prefix d ((b @ replicate n c) @ [c])" by simp
  then have "d = (b @ replicate n c) @ [c] \<or> prefix d (b @ replicate n c)"
    by (simp only: prefix_snoc)
  with Suc.prems(2) have "prefix d (b @ replicate n c)" by auto
  with Suc.IH Suc.prems(2) show ?case by blast
qed


lemma dirname_ancestor:
  assumes "P \<noteq> []" "hd P = CHR ''/''" "prefix P p"
  shows "in_directory (dirname P) p"
proof -
  let ?h = "path_head P"
  from assms(1,2) have "prefix ([] @ [CHR ''/'']) P" by (cases P) simp_all
  then have "prefix ([] @ [CHR ''/'']) ?h" by (rule prefix_path_head)
  then have ne: "?h \<noteq> []" by auto
  with path_head_last have last: "last ?h = CHR ''/''" by blast
  from path_head_prefix assms(3) have hp: "prefix ?h p" by (rule prefix_order.trans)
  show ?thesis
  proof (cases "?h = replicate (length ?h) CHR ''/''")
    case True
    then have "dirname P = ?h" by (simp add: dirname_head)
    with hp ne last show ?thesis by (simp add: in_directory_def)
  next
    case False
    with ne have d: "dirname P = rstrip CHR ''/'' ?h" by (simp add: dirname_head)
    let ?b = "rstrip CHR ''/'' ?h"
    from rstrip_decomp obtain n where n: "?h = ?b @ replicate n CHR ''/''" by blast
    have "n \<noteq> 0"
    proof
      assume "n = 0"
      with n have "?h = ?b" by simp
      with rstrip_last [of "CHR ''/''" ?h] ne last show False by simp
    qed
    then obtain k where k: "n = Suc k" by (cases n) simp_all
    from hp obtain r where "p = ?h @ r" by (auto simp: prefix_def)
    with n k have p: "p = ?b @ CHR ''/'' # (replicate k CHR ''/'' @ r)" by simp
    have "prefix ?b p" by (subst p) simp
    moreover have "drop (length ?b) p = CHR ''/'' # (replicate k CHR ''/'' @ r)" by (subst p) simp
    ultimately show ?thesis unfolding d by (simp add: in_directory_def)
  qed
qed

lemma rstrip_prefix: "prefix (rstrip c s) s"
  using rstrip_decomp [of s c] by (metis prefixI)

lemma dirname_deepest:
  assumes nonempty: "paths \<noteq> []"
    and dir: "\<forall>p\<in>set paths. in_directory d p"
    and longest: "\<forall>q. (\<forall>p\<in>set paths. prefix q p) \<longrightarrow> prefix q P"
  shows "prefix (rstrip CHR ''/'' d) (dirname P)"
proof -
  let ?h = "path_head P" and ?d' = "rstrip CHR ''/'' d"
  have dh: "prefix d ?h"
  proof (cases "d \<noteq> [] \<and> last d = CHR ''/''")
    case True
    from dir have "\<forall>p\<in>set paths. prefix d p" by (simp add: in_directory_def)
    with longest have "prefix d P" by blast
    moreover from True have "d = butlast d @ [CHR ''/'']" by (metis append_butlast_last_id)
    ultimately show ?thesis by (metis prefix_path_head)
  next
    case False
    have "prefix (d @ [CHR ''/'']) p" if "p \<in> set paths" for p
    proof -
      from dir that False have pre: "prefix d p" and ne: "drop (length d) p \<noteq> []"
        and hd: "hd (drop (length d) p) = CHR ''/''"
        by (auto simp: in_directory_def)
      from pre obtain r where p: "p = d @ r" by (auto simp: prefix_def)
      with ne hd obtain r' where "r = CHR ''/'' # r'" by (cases r) simp_all
      with p show ?thesis by simp
    qed
    with longest have "prefix (d @ [CHR ''/'']) P" by blast
    then have "prefix (d @ [CHR ''/'']) ?h" by (rule prefix_path_head)
    then show ?thesis by (metis append_prefixD)
  qed
  from rstrip_prefix dh have d'h: "prefix ?d' ?h" by (rule prefix_order.trans)
  show ?thesis
  proof (cases "?h \<noteq> [] \<and> ?h \<noteq> replicate (length ?h) CHR ''/''")
    case False
    then have "dirname P = ?h" by (auto simp: dirname_head)
    with d'h show ?thesis by simp
  next
    case True
    then have d: "dirname P = rstrip CHR ''/'' ?h" by (simp add: dirname_head)
    from rstrip_decomp obtain n where n: "?h = rstrip CHR ''/'' ?h @ replicate n CHR ''/''" by blast
    from d'h have "prefix ?d' (rstrip CHR ''/'' ?h @ replicate n CHR ''/'')" by (subst n [symmetric])
    from prefix_replicate_strip [OF this rstrip_last] show ?thesis unfolding d .
  qed
qed

text \<open>
  Claim C9. \<open>template_to_base_path\<close> returns the working directory when the template is
  the working directory or \<^verbatim>\<open>%suggested%\<close>. For any other template it returns
  \<^verbatim>\<open>dirname\<close> of the common prefix of the songs' resolved paths, without raising; when the
  resolved paths are absolute, every one of them lies in that directory, and when there
  is at least one song, every directory in which all of them lie is (without its
  trailing slashes) a prefix of it: it is the deepest common ancestor.
\<close>

theorem template_to_base_path_result:
  "(template = cwd \<or> template = ''%suggested%'' \<longrightarrow>
      template_to_base_path cwd abs_path to_filepath template google_songs = Inr cwd) \<and>
   (template \<noteq> cwd \<and> template \<noteq> ''%suggested%'' \<longrightarrow>
      (\<exists>base. template_to_base_path cwd abs_path to_filepath template google_songs = Inr base \<and>
         ((\<forall>song\<in>set google_songs. take 1 (to_filepath (abs_path template) song) = ''/'') \<longrightarrow>
            (\<forall>song\<in>set google_songs.
               in_directory base (to_filepath (abs_path template) song))) \<and>
         (\<forall>d. google_songs \<noteq> [] \<and>
              (\<forall>song\<in>set google_songs. in_directory d (to_filepath (abs_path template) song)) \<longrightarrow>
              prefix (rstrip CHR ''/'' d) base)))"
proof (intro conjI impI)
  assume "template = cwd \<or> template = ''%suggested%''"
  then show "template_to_base_path cwd abs_path to_filepath template google_songs = Inr cwd"
    by (auto simp: template_to_base_path_def)
next
  assume other: "template \<noteq> cwd \<and> template \<noteq> ''%suggested%''"
  define song_paths where "song_paths = map (to_filepath (abs_path template)) google_songs"
  have run: "template_to_base_path cwd abs_path to_filepath template google_songs =
      bind (commonprefix song_paths) (\<lambda>prefix. Inr (dirname prefix))"
    using other by (simp add: template_to_base_path_def song_paths_def Let_def)
  show "\<exists>base. template_to_base_path cwd abs_path to_filepath template google_songs = Inr base \<and>
         ((\<forall>song\<in>set google_songs. take 1 (to_filepath (abs_path template) song) = ''/'') \<longrightarrow>
            (\<forall>song\<in>set google_songs.
               in_directory base (to_filepath (abs_path template) song))) \<and>
         (\<forall>d. google_songs \<noteq> [] \<and>
              (\<forall>song\<in>set google_songs. in_directory d (to_filepath (abs_path template) song)) \<longrightarrow>
              prefix (rstrip CHR ''/'' d) base)"
  proof (cases "google_songs = []")
    case True
    then have "template_to_base_path cwd abs_path to_filepath template google_songs =
        Inr (dirname [])"
      unfolding run by (simp add: song_paths_def commonprefix_def bind_def)
    with True show ?thesis by simp
  next
    case False
    then have ne: "song_paths \<noteq> []" by (simp add: song_paths_def)
    from commonprefix_Inr [OF ne] obtain P where P: "commonprefix song_paths = Inr P"
      and pre: "\<forall>x\<in>set song_paths. prefix P x"
      and longest: "\<forall>q. (\<forall>x\<in>set song_paths. prefix q x) \<longrightarrow> prefix q P"
      by blast
    have res: "template_to_base_path cwd abs_path to_filepath template google_songs =
        Inr (dirname P)"
      unfolding run P by (simp add: bind_def)
    have anc: "in_directory (dirname P) (to_filepath (abs_path template) song)"
      if abs: "\<forall>song\<in>set google_songs. take 1 (to_filepath (abs_path template) song) = ''/''"
        and song: "song \<in> set google_songs" for song
    proof -
      have slash: "prefix ''/'' x" if "take 1 x = ''/''" for x :: string
        by (metis append_take_drop_id prefixI that)
      have "\<forall>x\<in>set song_paths. prefix ''/'' x"
      proof
        fix x
        assume "x \<in> set song_paths"
        then obtain s where "s \<in> set google_songs" and "x = to_filepath (abs_path template) s"
          unfolding song_paths_def by (metis (no_types) imageE set_map)
        with abs show "prefix ''/'' x" by (intro slash) simp
      qed
      with longest have "prefix ''/'' P" by (rule_tac mp [OF spec [OF longest]])
      then obtain r where "P = ''/'' @ r" by (rule prefixE)
      then have "P \<noteq> []" and "hd P = CHR ''/''" by simp_all
      moreover from pre song have "prefix P (to_filepath (abs_path template) song)"
        by (simp add: song_paths_def)
      ultimately show ?thesis by (rule dirname_ancestor)
    qed
    have deep: "prefix (rstrip CHR ''/'' d) (dirname P)"
      if "\<forall>song\<in>set google_songs. in_directory d (to_filepath (abs_path template) song)" for d
    proof (rule dirname_deepest [OF ne _ longest])
      from that show "\<forall>p\<in>set song_paths. in_directory d p" by (simp add: song_paths_def)
    qed
    show ?thesis
    proof (intro exI [of _ "dirname P"] conjI impI allI ballI)
      show "template_to_base_path cwd abs_path to_filepath template google_songs =
          Inr (dirname P)" by (rule res)
    next
      fix song
      assume "\<forall>song\<in>set google_songs. take 1 (to_filepath (abs_path template) song) = ''/''"
        and "song \<in> set google_songs"
      then show "in_directory (dirname P) (to_filepath (abs_path template) song)" by (rule anc)
    next
      fix d
      assume "google_songs \<noteq> [] \<and>
          (\<forall>song\<in>set google_songs. in_directory d (to_filepath (abs_path template) song))"
      then have "\<forall>song\<in>set google_songs. in_directory d (to_filepath (abs_path template) song)" ..
      then show "prefix (rstrip CHR ''/'' d) (dirname P)" by (rule deep)
    qed
  qed
qed

lemma ex_base_path:
  "template_to_base_path ''/home/u'' ex_abspath ex_template_to_filepath ''/m''
     [''Muse/Drones/01.mp3'', ''Muse/Absolution/02.mp3'', ''Mew/x.mp3''] = Inr ''/m''"
  by (simp add: template_to_base_path_def ex_abspath_def ex_template_to_filepath_def commonprefix_def
      list_min_def list_max_def bind_def dirname_def rfind_def rstrip_def Let_def min_def max_def
      eval_nat_numeral)

theorem template_to_base_path_result_witness:
  "template_to_base_path ''/home/u'' ex_abspath ex_template_to_filepath ''/home/u''
     [''Muse/Drones/01.mp3''] = Inr ''/home/u'' \<and>
   template_to_base_path ''/home/u'' ex_abspath ex_template_to_filepath ''%suggested%''
     [''Muse/Drones/01.mp3''] = Inr ''/home/u'' \<and>
   template_to_base_path ''/home/u'' ex_abspath ex_template_to_filepath ''/m''
     [''Muse/Drones/01.mp3'', ''Muse/Absolution/02.mp3'', ''Mew/x.mp3''] = Inr ''/m'' \<and>
   in_directory ''/m'' ''/m/Mew/x.mp3''"
proof -
  note cwd = template_to_base_path_result [where cwd = "''/home/u''" and template = "''/home/u''",
      THEN conjunct1, THEN mp]
  note sug = template_to_base_path_result [where cwd = "''/home/u''" and template = "''%suggested%''",
      THEN conjunct1, THEN mp]
  show ?thesis
  proof (intro conjI)
    show "template_to_base_path ''/home/u'' ex_abspath ex_template_to_filepath ''/home/u''
        [''Muse/Drones/01.mp3''] = Inr ''/home/u''"
      by (rule cwd) simp
    show "template_to_base_path ''/home/u'' ex_abspath ex_template_to_filepath ''%suggested%''
        [''Muse/Drones/01.mp3''] = Inr ''/home/u''"
      by (rule sug) simp
    show "template_to_base_path ''/home/u'' ex_abspath ex_template_to_filepath ''/m''
        [''Muse/Drones/01.mp3'', ''Muse/Absolution/02.mp3'', ''Mew/x.mp3''] = Inr ''/m''"
      by (rule ex_base_path)
    show "in_directory ''/m'' ''/m/Mew/x.mp3''"
      by (simp add: in_directory_def)
  qed
qed

section \<open>Properties of the run of \<open>main\<close>\<close>

lemma ex_cli_dict:
  "cli_dict ex_docopt_down =
     [''help'' \<mapsto> CBool False, ''up'' \<mapsto> CBool False, ''down'' \<mapsto> CBool True,
      ''exclude'' \<mapsto> CList [], ''include-filter'' \<mapsto> CList [], ''exclude-filter'' \<mapsto> CList [],
      ''cred'' \<mapsto> CStr ''oauth'', ''uploader-id'' \<mapsto> CNone, ''log'' \<mapsto> CBool False,
      ''match'' \<mapsto> CBool False, ''dry-run'' \<mapsto> CBool False, ''quiet'' \<mapsto> CBool False,
      ''delete-on-success'' \<mapsto> CBool False, ''no-recursion'' \<mapsto> CBool False,
      ''max-depth'' \<mapsto> CNone, ''all-includes'' \<mapsto> CBool False, ''all-excludes'' \<mapsto> CBool False,
      ''playlists'' \<mapsto> CStr ''playlists'', ''removed'' \<mapsto> CNone, ''favorites'' \<mapsto> CNone,
      ''input'' \<mapsto> CList [], ''output'' \<mapsto> CNone]"
  by (simp add: cli_dict_def ex_docopt_down_def lstrip_chars_def rstrip_chars_def)

lemma load_global_pp: "load_global ''pp'' = Inl (NameError ''pp'')"
  by (simp add: load_global_def module_globals_def builtin_functions_def)

text \<open>
  Claim C4. Whenever docopt accepts the arguments, \<open>main\<close> raises \<^verbatim>\<open>NameError\<close> for the
  name \<open>pp\<close> right after the command line is parsed: the only call made is docopt's,
  there is no login and no fetch, comparison or transfer, and the process ends with
  status 1.
\<close>

theorem main_raises_NameError:
  assumes "docopt w = Inr items"
  shows "main w = ([Docopt], Inl (NameError ''pp'')) \<and>
         exit_status (snd (main w)) = 1 \<and>
         MMLogin \<notin> set (fst (main w)) \<and>
         \<not> list_ex reconciliation_step (fst (main w))"
proof -
  have "main w = ([Docopt], Inl (NameError ''pp''))"
    using assms by (simp add: main_def seq_def emit_def lift_def load_global_pp Let_def)
  then show ?thesis by (simp add: exit_status_def reconciliation_step_def)
qed

theorem main_raises_NameError_witness:
  "main (ex_world True) = ([Docopt], Inl (NameError ''pp'')) \<and>
   exit_status (snd (main (ex_world True))) = 1"
proof -
  have "docopt (ex_world True) = Inr ex_docopt_down" by (simp add: ex_world_def)
  from main_raises_NameError [OF this] show ?thesis by blast
qed


lemma seq_lift_Inr: "seq (lift (Inr v)) f = f v"
  by (simp add: seq_def lift_def)

lemma seq_lift_Inl: "seq (lift (Inl e)) f = raise e"
  by (simp add: seq_def lift_def raise_def)

lemma seq_raise: "seq (raise e) f = raise e"
  by (simp add: seq_def raise_def)

lemma seq_ret: "seq (ret v) f = f v"
  by (simp add: seq_def ret_def)

lemma seq_emit: "seq (emit ev) f t = f () (t @ [ev])"
  by (simp add: seq_def emit_def)

lemma cli_item_dom: "k \<in> dom cli \<Longrightarrow> \<exists>v. cli_item cli k = Inr v"
  by (auto simp: cli_item_def)

text \<open>
  What lines 205 to 209 do where they are reached: \<^verbatim>\<open>sys.exit()\<close> right after the login,
  without an argument.
\<close>

lemma main_after_pprint_unauthenticated:
  assumes "normalise_cli (getcwd w) cli = Inr (cli', include_filters, exclude_filters)"
    and "''log'' \<in> dom cli'" and "''cred'' \<in> dom cli'" and "''uploader-id'' \<in> dom cli'"
    and "\<not> mm_is_authenticated w"
  shows "main_after_pprint w cli t = (t @ [MMLogin], Inl (SystemExit None))"
proof -
  from cli_item_dom [OF assms(2)] obtain l where l: "cli_item cli' ''log'' = Inr l" ..
  from cli_item_dom [OF assms(3)] obtain c where c: "cli_item cli' ''cred'' = Inr c" ..
  from cli_item_dom [OF assms(4)] obtain u where u: "cli_item cli' ''uploader-id'' = Inr u" ..
  show ?thesis
    unfolding main_after_pprint_def assms(1) seq_lift_Inr prod.case l c u seq_emit
    using assms(5) by (simp add: seq_raise) (simp add: raise_def)
qed



lemma ex_normalise_cli:
  "normalise_cli ''/home/u'' (cli_dict ex_docopt_down) =
     Inr ((cli_dict ex_docopt_down)
            (''max-depth'' \<mapsto> CInf, ''input'' \<mapsto> CList [''/home/u''], ''output'' \<mapsto> CStr ''/home/u''),
          [], [])"
  by (simp add: ex_cli_dict normalise_cli_def cli_item_def bind_def Let_def)

lemma ex_normalise_cli_world:
  "normalise_cli (getcwd (ex_world auth)) (cli_dict ex_docopt_down) =
     Inr ((cli_dict ex_docopt_down)
            (''max-depth'' \<mapsto> CInf, ''input'' \<mapsto> CList [''/home/u''], ''output'' \<mapsto> CStr ''/home/u''),
          [], [])"
  using ex_normalise_cli by (simp add: ex_world_def)

lemma cli_dict_fold_dom:
  "dom (fold (\<lambda>(key, value) d. d(rstrip_chars ''>'' (lstrip_chars ''-<'' key) \<mapsto> value)) items d0) =
     dom d0 \<union> (\<lambda>key. rstrip_chars ''>'' (lstrip_chars ''-<'' key)) ` fst ` set items"
proof (induction items arbitrary: d0)
  case Nil
  then show ?case by simp
next
  case (Cons kv items)
  obtain key v where kv: "kv = (key, v)" by (cases kv)
  have "dom (d0(rstrip_chars ''>'' (lstrip_chars ''-<'' key) \<mapsto> v)) =
      insert (rstrip_chars ''>'' (lstrip_chars ''-<'' key)) (dom d0)" by simp
  then show ?case unfolding kv fold_Cons comp_apply prod.case Cons.IH by simp
qed

lemma favorites_key_present:
  assumes "docopt_result items"
  shows "''favorites'' \<in> dom (cli_dict items)"
proof -
  from assms have eq: "set (map fst items) = set docopt_keys" by (simp only: docopt_result_def)
  have "''--favorites'' \<in> set docopt_keys" by (simp add: docopt_keys_def)
  then have "''--favorites'' \<in> fst ` set items" by (simp only: eq [symmetric] set_map)
  then have "(\<lambda>key. rstrip_chars ''>'' (lstrip_chars ''-<'' key)) ''--favorites'' \<in>
      (\<lambda>key. rstrip_chars ''>'' (lstrip_chars ''-<'' key)) ` fst ` set items"
    by (rule imageI)
  moreover have "rstrip_chars ''>'' (lstrip_chars ''-<'' ''--favorites'') = ''favorites''"
    by (simp add: rstrip_chars_def lstrip_chars_def)
  ultimately have "''favorites'' \<in> (\<lambda>key. rstrip_chars ''>'' (lstrip_chars ''-<'' key)) ` fst ` set items"
    by (simp only:)
  then show ?thesis unfolding cli_dict_def cli_dict_fold_dom by (rule UnI2)
qed

lemma favorites_playlist_name_docopt:
  "docopt_result items \<Longrightarrow>
   favorites_playlist_name (cli_dict items) = cli_item (cli_dict items) ''favorites''"
  by (simp add: favorites_playlist_name_def favorites_key_present)

lemma favorites_playlist_name_supplied:
  "cli ''favorites'' = Some (CStr given) \<Longrightarrow> favorites_playlist_name cli = Inr (CStr given)"
  by (auto simp: favorites_playlist_name_def cli_item_def)

lemma ex_docopt_result: "docopt_result ex_docopt_down"
  by (simp add: docopt_result_def ex_docopt_down_def docopt_keys_def)

lemma favorites_name_not_defaulted:
  "docopt_result ex_docopt_down \<and>
   favorites_playlist_name (cli_dict ex_docopt_down) = Inr CNone \<and>
   create_playlist_file (ex_world True) (cli_dict ex_docopt_down) Map.empty CNone [] ''/home/u/playlists'' [] =
     ([], Inl TypeError)"
  by (simp add: ex_docopt_result favorites_playlist_name_def ex_cli_dict cli_item_def
      create_playlist_file_def seq_lift_Inl raise_def)

lemma seq_history: "seq history f t = f t t"
  by (simp add: seq_def history_def)

lemma ex_world_sel:
  "getcwd (ex_world auth) = ''/home/u''"
  "abspath (ex_world auth) = ex_abspath"
  "mm_is_authenticated (ex_world auth) = auth"
  "mc_is_authenticated (ex_world auth) = auth"
  "get_google_songs (ex_world auth) inc exc ai ae = ([], [])"
  "get_local_songs (ex_world auth) t input = ([], [], [])"
  "get_all_songs (ex_world auth) = []"
  "get_all_user_playlist_contents (ex_world auth) = []"
  by (simp_all add: ex_world_def)

lemma ex_download_nothing:
  "cli ''input'' = Some input \<Longrightarrow> cli ''exclude'' = Some e \<Longrightarrow> cli ''dry-run'' = Some (CBool False) \<Longrightarrow>
   download_missing_google_songs (ex_world auth) cli [] t = (t @ [GetLocalSongs input], Inr ())"
  by (simp add: download_missing_google_songs_def cli_item_def seq_lift_Inr seq_history seq_emit
      ex_world_sel songs_to_download_sorted_def compare_song_collections_def sort_tuple_key_def
      download_songs_def ret_def)

lemma ex_run_down:
  "main_after_pprint (ex_world True) (cli_dict ex_docopt_down) [] =
     ([MMLogin, MCLogin, GetGoogleSongs, GetLocalSongs (CList [''/home/u'']), GetAllSongs,
       MakePath ''/home/u/playlists'', GetPlaylists, GetLocalSongs (CList [''/home/u'']),
       GetLocalSongs (CList [''/home/u''])],
      Inl TypeError)"
  unfolding main_after_pprint_def ex_normalise_cli_world seq_lift_Inr prod.case
  by (simp add: ex_cli_dict cli_item_def ex_world_sel sync_down_def
      template_to_base_path_def bind_def ex_download_nothing sync_playlists_def tracks_dict_of_def
      ex_abspath_def get_mmw_tracks_def favorites_playlist_name_def thumbs_up_of_def list_sort_key_def
      create_playlist_file_def Let_def seq_def emit_def lift_def ret_def raise_def)

text \<open>
  Claim C3 at \<^verbatim>\<open>gmsync down -p playlists\<close>, where no favorites name is given. docopt's
  dictionary has the key \<^verbatim>\<open>favorites\<close> with \<^verbatim>\<open>None\<close>, so the test \<^verbatim>\<open>'favorites' in cli\<close>
  holds and the name is \<^verbatim>\<open>None\<close>, not \<^verbatim>\<open>___auto_favorites___\<close>; \<open>create_playlist_file\<close> then
  raises \<^verbatim>\<open>TypeError\<close> at \<^verbatim>\<open>name + '.m3u'\<close>, and the run from line 186 on ends in that
  exception without writing a favorites playlist.
\<close>

theorem favorites_sentinel_not_used:
  "docopt_result ex_docopt_down \<and>
   favorites_playlist_name (cli_dict ex_docopt_down) = Inr CNone \<and>
   create_playlist_file (ex_world True) (cli_dict ex_docopt_down) Map.empty CNone []
       ''/home/u/playlists'' [] = ([], Inl TypeError) \<and>
   main_after_pprint (ex_world True) (cli_dict ex_docopt_down) [] =
     ([MMLogin, MCLogin, GetGoogleSongs, GetLocalSongs (CList [''/home/u'']), GetAllSongs,
       MakePath ''/home/u/playlists'', GetPlaylists, GetLocalSongs (CList [''/home/u'']),
       GetLocalSongs (CList [''/home/u''])],
      Inl TypeError)"
  using favorites_name_not_defaulted ex_run_down by simp

lemma for_each_emit: "for_each (\<lambda>x. emit (f x)) xs t = (t @ map f xs, Inr ())"
proof (induction xs arbitrary: t)
  case Nil
  then show ?case by (simp add: ret_def)
next
  case (Cons x xs)
  have "for_each (\<lambda>x. emit (f x)) (x # xs) t = for_each (\<lambda>x. emit (f x)) xs (t @ [f x])"
    by (simp add: seq_def emit_def)
  then show ?case unfolding Cons.IH by simp
qed

lemma seq_for_each_emit: "seq (for_each (\<lambda>x. emit (f x)) xs) g t = g () (t @ map f xs)"
  by (simp add: seq_def for_each_emit)

lemma report_downloads:
  "for_each (\<lambda>song. seq (lift (getitem song ''id'')) (\<lambda>song_id. emit (ReportDownload song))) xs t =
     (t @ map ReportDownload (takeWhile (\<lambda>s. ''id'' \<in> dom s) xs),
      if \<forall>s\<in>set xs. ''id'' \<in> dom s then Inr () else Inl (KeyError (PStr ''id'')))"
proof (induction xs arbitrary: t)
  case Nil
  then show ?case by (simp add: ret_def)
next
  case (Cons x xs)
  show ?case
  proof (cases "''id'' \<in> dom x")
    case True
    then obtain v where "getitem x ''id'' = Inr v" by (auto simp: getitem_def)
    then have "for_each (\<lambda>song. seq (lift (getitem song ''id'')) (\<lambda>song_id. emit (ReportDownload song)))
        (x # xs) t =
      for_each (\<lambda>song. seq (lift (getitem song ''id'')) (\<lambda>song_id. emit (ReportDownload song)))
        xs (t @ [ReportDownload x])"
      by (simp add: seq_def lift_def emit_def)
    then show ?thesis unfolding Cons.IH using True by simp
  next
    case False
    then have "x ''id'' = None" by (simp add: domIff)
    then have "getitem x ''id'' = Inl (KeyError (PStr ''id''))" by (simp add: getitem_def)
    with False show ?thesis by (simp add: seq_def lift_def)
  qed
qed

lemma download_missing_google_songs_run:
  assumes "cli ''input'' = Some input" and "cli ''exclude'' = Some exclude"
    and "cli ''dry-run'' = Some dry_run"
    and "get_local_songs w t input = (matched_local_songs, filtered_local_songs, excluded_local_songs)"
  shows "download_missing_google_songs w cli mmw_songs t =
    (case songs_to_download_sorted (google_key w) (local_key w) mmw_songs matched_local_songs of
       Inl e \<Rightarrow> (t @ [GetLocalSongs input], Inl e)
     | Inr downloads \<Rightarrow>
         if truthy dry_run
         then (t @ GetLocalSongs input # map ReportDownload (takeWhile (\<lambda>s. ''id'' \<in> dom s) downloads),
               if \<forall>s\<in>set downloads. ''id'' \<in> dom s then Inr () else Inl (KeyError (PStr ''id'')))
         else (t @ GetLocalSongs input # (if downloads \<noteq> [] then [Download downloads] else []), Inr ()))"
proof (cases "songs_to_download_sorted (google_key w) (local_key w) mmw_songs matched_local_songs")
  case (Inl e)
  with assms show ?thesis
    by (simp add: download_missing_google_songs_def cli_item_def seq_def lift_def history_def emit_def)
next
  case (Inr downloads)
  have "download_missing_google_songs w cli mmw_songs t =
      download_songs cli downloads (t @ [GetLocalSongs input])"
    using assms Inr
    by (simp add: download_missing_google_songs_def cli_item_def seq_def lift_def history_def emit_def)
  also have "\<dots> =
      (if truthy dry_run
       then for_each (\<lambda>song. seq (lift (getitem song ''id'')) (\<lambda>song_id. emit (ReportDownload song)))
              downloads (t @ [GetLocalSongs input])
       else if downloads \<noteq> [] then (t @ [GetLocalSongs input, Download downloads], Inr ())
       else (t @ [GetLocalSongs input], Inr ()))"
    using assms(3) by (simp add: download_songs_def cli_item_def seq_def lift_def emit_def ret_def)
  finally show ?thesis unfolding report_downloads Inr by simp
qed

lemma sync_up_run:
  assumes "cli ''input'' = Some input" and "cli ''all-includes'' = Some all_includes"
    and "cli ''all-excludes'' = Some all_excludes" and "cli ''exclude'' = Some exclude"
    and "cli ''max-depth'' = Some max_depth" and "cli ''dry-run'' = Some dry_run"
    and "cli ''match'' = Some match" and "cli ''delete-on-success'' = Some delete_on_success"
    and "get_google_songs w [] [] (CBool False) (CBool False) = (matched_google_songs, unused)"
    and "get_local_songs w (t @ [GetGoogleSongs]) input =
           (matched_local_songs, songs_to_filter, songs_to_exclude)"
  shows "sync_up w cli include_filters exclude_filters t =
    (let uploads = songs_to_upload_sorted (local_key w) (google_key w) matched_local_songs
                     matched_google_songs
     in if truthy dry_run
        then (t @ [GetGoogleSongs, GetLocalSongs input] @ map ReportUpload uploads @
                map ReportFilter songs_to_filter @ map ReportExclude (sort songs_to_exclude), Inr ())
        else if uploads \<noteq> [] then (t @ [GetGoogleSongs, GetLocalSongs input, Upload uploads], Inr ())
        else if truthy delete_on_success
        then (t @ [GetGoogleSongs, GetLocalSongs input] @ map Remove matched_local_songs, Inr ())
        else (t @ [GetGoogleSongs, GetLocalSongs input], Inr ()))"
  using assms
  by (simp add: sync_up_def cli_item_def seq_lift_Inr seq_emit seq_history seq_for_each_emit
      for_each_emit ret_def Let_def)
     (simp add: emit_def)

text \<open>
  Claim C8, as the code has it. \<open>download_missing_google_songs\<close> sorts the comparator's
  result by the key (artist, album, track_number) before it reports or acts on it: the
  list it reports song by song in a dry run, and the list it hands to \<^verbatim>\<open>mmw.download\<close>
  otherwise, is a permutation of the comparator's result in which no song is followed by
  one with a smaller key, songs with equal keys keeping the comparator's order (where the
  keys cannot be compared the sort raises and nothing is reported or downloaded). The
  upload branch sorts the comparator's result with \<^verbatim>\<open>sort()\<close> and no key, that is by the
  paths as strings, before it reports it in a dry run or hands it to \<^verbatim>\<open>mmw.upload\<close>.
\<close>

theorem sorting_after_comparator:
  "(cli ''input'' = Some input \<and> cli ''exclude'' = Some exclude \<and> cli ''dry-run'' = Some dry_run \<and>
    get_local_songs w t input = (matched_local_songs, filtered_local_songs, excluded_local_songs) \<longrightarrow>
      (case songs_to_download_sorted (google_key w) (local_key w) mmw_songs matched_local_songs of
         Inl e \<Rightarrow> download_missing_google_songs w cli mmw_songs t = (t @ [GetLocalSongs input], Inl e)
       | Inr downloads \<Rightarrow>
           mset downloads =
             mset (compare_song_collections (google_key w) (local_key w) mmw_songs matched_local_songs) \<and>
           sorted_wrt (\<lambda>a b. tuple_lt (download_key b) (download_key a) = Inr False) downloads \<and>
           (\<forall>k. filter (\<lambda>x. download_key x = k) downloads =
                filter (\<lambda>x. download_key x = k)
                  (compare_song_collections (google_key w) (local_key w) mmw_songs matched_local_songs)) \<and>
           download_missing_google_songs w cli mmw_songs t =
             (if truthy dry_run
              then (t @ GetLocalSongs input #
                      map ReportDownload (takeWhile (\<lambda>s. ''id'' \<in> dom s) downloads),
                    if \<forall>s\<in>set downloads. ''id'' \<in> dom s then Inr ()
                    else Inl (KeyError (PStr ''id'')))
              else (t @ GetLocalSongs input # (if downloads \<noteq> [] then [Download downloads] else []),
                    Inr ())))) \<and>
   ((\<forall>x\<in>set mmw_songs. \<forall>y\<in>set mmw_songs. comparable (download_key x) (download_key y)) \<longrightarrow>
      (\<exists>downloads. songs_to_download_sorted gkey lkey mmw_songs matched_local_songs = Inr downloads)) \<and>
   (cli ''input'' = Some input \<and> cli ''all-includes'' = Some all_includes \<and>
    cli ''all-excludes'' = Some all_excludes \<and> cli ''exclude'' = Some exclude \<and>
    cli ''max-depth'' = Some max_depth \<and> cli ''dry-run'' = Some dry_run \<and>
    cli ''match'' = Some match \<and> cli ''delete-on-success'' = Some delete_on_success \<and>
    get_google_songs w [] [] (CBool False) (CBool False) = (matched_google_songs, unused) \<and>
    get_local_songs w (t @ [GetGoogleSongs]) input = (local_songs, songs_to_filter, songs_to_exclude) \<longrightarrow>
      mset (songs_to_upload_sorted (local_key w) (google_key w) local_songs matched_google_songs) =
        mset (compare_song_collections (local_key w) (google_key w) local_songs matched_google_songs) \<and>
      sorted (songs_to_upload_sorted (local_key w) (google_key w) local_songs matched_google_songs) \<and>
      sync_up w cli include_filters exclude_filters t =
        (let uploads = songs_to_upload_sorted (local_key w) (google_key w) local_songs
                         matched_google_songs
         in if truthy dry_run
            then (t @ [GetGoogleSongs, GetLocalSongs input] @ map ReportUpload uploads @
                    map ReportFilter songs_to_filter @ map ReportExclude (sort songs_to_exclude), Inr ())
            else if uploads \<noteq> [] then (t @ [GetGoogleSongs, GetLocalSongs input, Upload uploads], Inr ())
            else if truthy delete_on_success
            then (t @ [GetGoogleSongs, GetLocalSongs input] @ map Remove local_songs, Inr ())
            else (t @ [GetGoogleSongs, GetLocalSongs input], Inr ())))"
proof (intro conjI impI)
  assume a: "cli ''input'' = Some input \<and> cli ''exclude'' = Some exclude \<and> cli ''dry-run'' = Some dry_run \<and>
    get_local_songs w t input = (matched_local_songs, filtered_local_songs, excluded_local_songs)"
  then have run: "download_missing_google_songs w cli mmw_songs t =
    (case songs_to_download_sorted (google_key w) (local_key w) mmw_songs matched_local_songs of
       Inl e \<Rightarrow> (t @ [GetLocalSongs input], Inl e)
     | Inr downloads \<Rightarrow>
         if truthy dry_run
         then (t @ GetLocalSongs input # map ReportDownload (takeWhile (\<lambda>s. ''id'' \<in> dom s) downloads),
               if \<forall>s\<in>set downloads. ''id'' \<in> dom s then Inr () else Inl (KeyError (PStr ''id'')))
         else (t @ GetLocalSongs input # (if downloads \<noteq> [] then [Download downloads] else []), Inr ()))"
    by (intro download_missing_google_songs_run) blast+
  show "case songs_to_download_sorted (google_key w) (local_key w) mmw_songs matched_local_songs of
         Inl e \<Rightarrow> download_missing_google_songs w cli mmw_songs t = (t @ [GetLocalSongs input], Inl e)
       | Inr downloads \<Rightarrow>
           mset downloads =
             mset (compare_song_collections (google_key w) (local_key w) mmw_songs matched_local_songs) \<and>
           sorted_wrt (\<lambda>a b. tuple_lt (download_key b) (download_key a) = Inr False) downloads \<and>
           (\<forall>k. filter (\<lambda>x. download_key x = k) downloads =
                filter (\<lambda>x. download_key x = k)
                  (compare_song_collections (google_key w) (local_key w) mmw_songs matched_local_songs)) \<and>
           download_missing_google_songs w cli mmw_songs t =
             (if truthy dry_run
              then (t @ GetLocalSongs input #
                      map ReportDownload (takeWhile (\<lambda>s. ''id'' \<in> dom s) downloads),
                    if \<forall>s\<in>set downloads. ''id'' \<in> dom s then Inr ()
                    else Inl (KeyError (PStr ''id'')))
              else (t @ GetLocalSongs input # (if downloads \<noteq> [] then [Download downloads] else []),
                    Inr ()))"
  proof (cases "songs_to_download_sorted (google_key w) (local_key w) mmw_songs matched_local_songs")
    case (Inl e)
    with run show ?thesis by simp
  next
    case (Inr downloads)
    then have srt: "sort_tuple_key download_key
        (compare_song_collections (google_key w) (local_key w) mmw_songs matched_local_songs) =
        Inr downloads"
      by (simp add: songs_to_download_sorted_def)
    note props = sort_tuple_key_Inr [OF srt]
    from run Inr have "download_missing_google_songs w cli mmw_songs t =
        (if truthy dry_run
         then (t @ GetLocalSongs input # map ReportDownload (takeWhile (\<lambda>s. ''id'' \<in> dom s) downloads),
               if \<forall>s\<in>set downloads. ''id'' \<in> dom s then Inr () else Inl (KeyError (PStr ''id'')))
         else (t @ GetLocalSongs input # (if downloads \<noteq> [] then [Download downloads] else []), Inr ()))"
      by simp
    with props show ?thesis unfolding Inr sum.case by blast
  qed
next
  assume "\<forall>x\<in>set mmw_songs. \<forall>y\<in>set mmw_songs. comparable (download_key x) (download_key y)"
  then show "\<exists>downloads. songs_to_download_sorted gkey lkey mmw_songs matched_local_songs = Inr downloads"
    by (simp add: songs_to_download_sorted_def sort_tuple_key_def compare_song_collections_def)
next
  show "mset (songs_to_upload_sorted (local_key w) (google_key w) local_songs matched_google_songs) =
        mset (compare_song_collections (local_key w) (google_key w) local_songs matched_google_songs)"
    by (simp add: songs_to_upload_sorted_def)
  show "sorted (songs_to_upload_sorted (local_key w) (google_key w) local_songs matched_google_songs)"
    by (simp add: songs_to_upload_sorted_def)
next
  assume "cli ''input'' = Some input \<and> cli ''all-includes'' = Some all_includes \<and>
    cli ''all-excludes'' = Some all_excludes \<and> cli ''exclude'' = Some exclude \<and>
    cli ''max-depth'' = Some max_depth \<and> cli ''dry-run'' = Some dry_run \<and>
    cli ''match'' = Some match \<and> cli ''delete-on-success'' = Some delete_on_success \<and>
    get_google_songs w [] [] (CBool False) (CBool False) = (matched_google_songs, unused) \<and>
    get_local_songs w (t @ [GetGoogleSongs]) input = (local_songs, songs_to_filter, songs_to_exclude)"
  then show "sync_up w cli include_filters exclude_filters t =
        (let uploads = songs_to_upload_sorted (local_key w) (google_key w) local_songs
                         matched_google_songs
         in if truthy dry_run
            then (t @ [GetGoogleSongs, GetLocalSongs input] @ map ReportUpload uploads @
                    map ReportFilter songs_to_filter @ map ReportExclude (sort songs_to_exclude), Inr ())
            else if uploads \<noteq> [] then (t @ [GetGoogleSongs, GetLocalSongs input, Upload uploads], Inr ())
            else if truthy delete_on_success
            then (t @ [GetGoogleSongs, GetLocalSongs input] @ map Remove local_songs, Inr ())
            else (t @ [GetGoogleSongs, GetLocalSongs input], Inr ()))"
    by (intro sync_up_run) blast+
qed

lemma ex_world_library_sel:
  "get_local_songs ex_world_library t input = ([''b/a.mp3'', ''a/z.mp3''], [], [])"
  "get_google_songs ex_world_library inc exc ai ae = ([], [])"
  "google_key ex_world_library = download_key"
  "local_key ex_world_library = ex_tags"
  by (simp_all add: ex_world_library_def ex_world_def)

lemma ex_cli_keys:
  "cli_dict ex_docopt_down ''input'' = Some (CList [])"
  "cli_dict ex_docopt_down ''exclude'' = Some (CList [])"
  "cli_dict ex_docopt_down ''dry-run'' = Some (CBool False)"
  "cli_dict ex_docopt_down ''all-includes'' = Some (CBool False)"
  "cli_dict ex_docopt_down ''all-excludes'' = Some (CBool False)"
  "cli_dict ex_docopt_down ''max-depth'' = Some CNone"
  "cli_dict ex_docopt_down ''match'' = Some (CBool False)"
  "cli_dict ex_docopt_down ''delete-on-success'' = Some (CBool False)"
  by (simp_all add: ex_cli_dict)

lemma ex_download_sorted_library:
  "songs_to_download_sorted download_key ex_tags
     [ex_mm_song ''1'' ''Muse'' ''Drones'' 2, ex_mm_song ''2'' ''Muse'' ''Absolution'' 7,
      ex_mm_song ''3'' ''Muse'' ''Drones'' 1, ex_mm_song ''4'' ''Zed'' ''Z'' 1] [''b/a.mp3'', ''a/z.mp3''] =
   Inr [ex_mm_song ''2'' ''Muse'' ''Absolution'' 7, ex_mm_song ''3'' ''Muse'' ''Drones'' 1,
        ex_mm_song ''1'' ''Muse'' ''Drones'' 2]"
  by (simp add: songs_to_download_sorted_def compare_song_collections_def ex_download_key ex_tags_def
      sort_tuple_key_def comparable_def pyval_code_def)

lemma ex_upload_sorted_library:
  "songs_to_upload_sorted ex_tags download_key [''b/a.mp3'', ''a/z.mp3''] [] = [''a/z.mp3'', ''b/a.mp3'']"
  by (simp add: songs_to_upload_sorted_def compare_song_collections_def)

theorem sorting_after_comparator_witness:
  "download_missing_google_songs ex_world_library (cli_dict ex_docopt_down)
     [ex_mm_song ''1'' ''Muse'' ''Drones'' 2, ex_mm_song ''2'' ''Muse'' ''Absolution'' 7,
      ex_mm_song ''3'' ''Muse'' ''Drones'' 1, ex_mm_song ''4'' ''Zed'' ''Z'' 1] [] =
     ([GetLocalSongs (CList []),
       Download [ex_mm_song ''2'' ''Muse'' ''Absolution'' 7, ex_mm_song ''3'' ''Muse'' ''Drones'' 1,
                 ex_mm_song ''1'' ''Muse'' ''Drones'' 2]], Inr ()) \<and>
   sorted_wrt (\<lambda>a b. tuple_lt (download_key b) (download_key a) = Inr False)
     [ex_mm_song ''2'' ''Muse'' ''Absolution'' 7, ex_mm_song ''3'' ''Muse'' ''Drones'' 1,
      ex_mm_song ''1'' ''Muse'' ''Drones'' 2] \<and>
   sync_up ex_world_library (cli_dict ex_docopt_down) [] [] [] =
     ([GetGoogleSongs, GetLocalSongs (CList []), Upload [''a/z.mp3'', ''b/a.mp3'']], Inr ())"
proof -
  note dl = sorting_after_comparator [where w = ex_world_library and cli = "cli_dict ex_docopt_down"
      and t = "[]" and mmw_songs = "[ex_mm_song ''1'' ''Muse'' ''Drones'' 2,
        ex_mm_song ''2'' ''Muse'' ''Absolution'' 7, ex_mm_song ''3'' ''Muse'' ''Drones'' 1,
        ex_mm_song ''4'' ''Zed'' ''Z'' 1]",
      THEN conjunct1, THEN mp,
      OF conjI [OF ex_cli_keys(1) conjI [OF ex_cli_keys(2) conjI [OF ex_cli_keys(3) ex_world_library_sel(1)]]],
      unfolded ex_world_library_sel ex_download_sorted_library sum.case]
  note ul = sorting_after_comparator [where w = ex_world_library and cli = "cli_dict ex_docopt_down"
      and t = "[]" and include_filters = "[]" and exclude_filters = "[]",
      THEN conjunct2, THEN conjunct2, THEN mp,
      OF conjI [OF ex_cli_keys(1) conjI [OF ex_cli_keys(4) conjI [OF ex_cli_keys(5)
        conjI [OF ex_cli_keys(2) conjI [OF ex_cli_keys(6) conjI [OF ex_cli_keys(3)
        conjI [OF ex_cli_keys(7) conjI [OF ex_cli_keys(8)
        conjI [OF ex_world_library_sel(2) ex_world_library_sel(1)]]]]]]]]],
      unfolded ex_world_library_sel ex_upload_sorted_library]
  from dl have 1: "download_missing_google_songs ex_world_library (cli_dict ex_docopt_down)
     [ex_mm_song ''1'' ''Muse'' ''Drones'' 2, ex_mm_song ''2'' ''Muse'' ''Absolution'' 7,
      ex_mm_song ''3'' ''Muse'' ''Drones'' 1, ex_mm_song ''4'' ''Zed'' ''Z'' 1] [] =
     ([GetLocalSongs (CList []),
       Download [ex_mm_song ''2'' ''Muse'' ''Absolution'' 7, ex_mm_song ''3'' ''Muse'' ''Drones'' 1,
                 ex_mm_song ''1'' ''Muse'' ''Drones'' 2]], Inr ())"
    by simp
  from dl have 2: "sorted_wrt (\<lambda>a b. tuple_lt (download_key b) (download_key a) = Inr False)
     [ex_mm_song ''2'' ''Muse'' ''Absolution'' 7, ex_mm_song ''3'' ''Muse'' ''Drones'' 1,
      ex_mm_song ''1'' ''Muse'' ''Drones'' 2]"
    by blast
  from ul have 3: "sync_up ex_world_library (cli_dict ex_docopt_down) [] [] [] =
     ([GetGoogleSongs, GetLocalSongs (CList []), Upload [''a/z.mp3'', ''b/a.mp3'']], Inr ())"
    by (simp add: Let_def)
  from 1 2 3 show ?thesis by blast
qed

end
